theory Spec2Isabelle
  imports Main "HOL-Library.Char_ord" "HOL-Library.List_Lexorder"
begin

section \<open>Values held by the records\<close>

text \<open>
  Python is untyped: the attributes of a \<open>Block\<close> hold whatever the caller passes or
  whatever \<open>json.load\<close> read from the storage file. The classes of both files are
  modelled first with attributes that hold JSON documents: \<open>None\<close>, booleans, integers,
  strings, lists and dictionaries with string keys. A dictionary is an association list
  in insertion order (Python keeps it, and so does \<open>json.load\<close>); its keys are
  distinct. Numbers with a fraction or an exponent are not part of the model. A string
  is a list of 8-bit characters. The values that are not JSON documents (tuples,
  dictionaries with integer keys, values that cannot be encoded) come in the section on
  Python values, where tampering and the round trip through the file are settled.
\<close>

datatype json =
    JNull
  | JBool bool
  | JInt int
  | JStr string
  | JArr "json list"
  | JObj "(string \<times> json) list"

datatype error = IndexError | KeyError string | TypeError | AttributeError

text \<open>
  Python's \<open>==\<close> on these values: a boolean is the integer 0 or 1, lists are compared
  element by element, dictionaries by their keys and the values under them, whatever
  the insertion order.
\<close>

fun py_eq :: "json \<Rightarrow> json \<Rightarrow> bool" where
  "py_eq JNull JNull = True"
| "py_eq (JBool a) (JBool b) = (a = b)"
| "py_eq (JBool a) (JInt j) = ((if a then 1 else 0) = j)"
| "py_eq (JInt i) (JBool b) = (i = (if b then 1 else 0))"
| "py_eq (JInt i) (JInt j) = (i = j)"
| "py_eq (JStr s) (JStr t) = (s = t)"
| "py_eq (JArr xs) (JArr ys) = list_all2 py_eq xs ys"
| "py_eq (JObj kvs) (JObj kws) =
     (length kvs = length kws \<and>
      list_all (\<lambda>kv. case map_of kws (fst kv) of
                        None \<Rightarrow> False
                      | Some w \<Rightarrow> py_eq (snd kv) w) kvs)"
| "py_eq _ _ = False"

section \<open>The canonical encoding: \<open>json.dumps(d, sort_keys=True)\<close>\<close>

text \<open>
  The encoder of the standard library with its default settings: separators
  \<open>", "\<close> and \<open>": "\<close>, \<open>ensure_ascii\<close>, and the members of every dictionary sorted by
  key. \<open>CHR 0x22\<close> is the double quote and \<open>CHR 0x5C\<close> the backslash.
\<close>

definition digit_char :: "nat \<Rightarrow> char" where
  "digit_char d = char_of (48 + d)"

function nat_repr :: "nat \<Rightarrow> string" where
  "nat_repr n =
     (if n < 10 then [digit_char n]
      else nat_repr (n div 10) @ [digit_char (n mod 10)])"
  by pat_completeness auto
termination
  by (relation "measure id") auto

declare nat_repr.simps [simp del]

definition int_repr :: "int \<Rightarrow> string" where
  "int_repr i = (if i < 0 then CHR ''-'' # nat_repr (nat (- i)) else nat_repr (nat i))"

definition hex_char :: "nat \<Rightarrow> char" where
  "hex_char d = (if d < 10 then char_of (48 + d) else char_of (87 + d))"

definition escape_char :: "char \<Rightarrow> string" where
  "escape_char c =
     (if c = CHR 0x5C then [CHR 0x5C, CHR 0x5C]
      else if c = CHR 0x22 then [CHR 0x5C, CHR 0x22]
      else if c = CHR 0x08 then [CHR 0x5C, CHR ''b'']
      else if c = CHR 0x0C then [CHR 0x5C, CHR ''f'']
      else if c = CHR 0x0A then [CHR 0x5C, CHR ''n'']
      else if c = CHR 0x0D then [CHR 0x5C, CHR ''r'']
      else if c = CHR 0x09 then [CHR 0x5C, CHR ''t'']
      else if 32 \<le> (of_char c :: nat) \<and> (of_char c :: nat) \<le> 126 then [c]
      else [CHR 0x5C, CHR ''u'', CHR ''0'', CHR ''0'',
            hex_char ((of_char c :: nat) div 16), hex_char ((of_char c :: nat) mod 16)])"

definition encode_basestring_ascii :: "string \<Rightarrow> string" where
  "encode_basestring_ascii s = CHR 0x22 # concat (map escape_char s) @ [CHR 0x22]"

fun join :: "string \<Rightarrow> string list \<Rightarrow> string" where
  "join sep [] = []"
| "join sep [x] = x"
| "join sep (x # y # ys) = x @ sep @ join sep (y # ys)"

fun dumps :: "json \<Rightarrow> string" where
  "dumps JNull = ''null''"
| "dumps (JBool b) = (if b then ''true'' else ''false'')"
| "dumps (JInt i) = int_repr i"
| "dumps (JStr s) = encode_basestring_ascii s"
| "dumps (JArr xs) = ''['' @ join '', '' (map dumps xs) @ '']''"
| "dumps (JObj kvs) =
     ''{'' @ join '', ''
               (map (\<lambda>kv. encode_basestring_ascii (fst kv) @ '': '' @ dumps (snd kv))
                    (sort_key fst kvs)) @ ''}''"

section \<open>Block (app3.py)\<close>

record block =
  index :: json
  timestamp :: json
  art_hash :: json
  owner_name :: json
  owner_pubkey :: json
  signature :: json
  metadata :: json
  previous_hash :: json
  nonce :: json
  hash :: json

text \<open>\<open>self.__dict__\<close> of a constructed block, in the order \<open>__init__\<close> sets the attributes.\<close>

definition dict_of :: "block \<Rightarrow> (string \<times> json) list" where
  "dict_of b =
     [(''index'', index b), (''timestamp'', timestamp b), (''art_hash'', art_hash b),
      (''owner_name'', owner_name b), (''owner_pubkey'', owner_pubkey b),
      (''signature'', signature b), (''metadata'', metadata b),
      (''previous_hash'', previous_hash b), (''nonce'', nonce b), (''hash'', hash b)]"

text \<open>\<open>d.pop(key, None)\<close>, keeping the dictionary that is left.\<close>

definition dict_pop :: "string \<Rightarrow> (string \<times> json) list \<Rightarrow> (string \<times> json) list" where
  "dict_pop key d = filter (\<lambda>kv. fst kv \<noteq> key) d"

text \<open>
  \<open>compute_hash\<close> works on a copy of \<open>self.__dict__\<close> without its \<open>hash\<close> member. The
  digest \<open>hashlib.sha256(s.encode()).hexdigest()\<close> is the parameter \<open>sha256\<close>.
\<close>

definition compute_hash_dict :: "(string \<Rightarrow> string) \<Rightarrow> (string \<times> json) list \<Rightarrow> string" where
  "compute_hash_dict sha256 self_dict =
     (let block_dict = dict_pop ''hash'' self_dict
      in sha256 (dumps (JObj block_dict)))"

definition compute_hash :: "(string \<Rightarrow> string) \<Rightarrow> block \<Rightarrow> string" where
  "compute_hash sha256 b = compute_hash_dict sha256 (dict_of b)"

text \<open>
  \<open>Block.__init__\<close>: nine attributes are set, \<open>nonce\<close> to 0, and \<open>compute_hash\<close> runs
  while \<open>self.__dict__\<close> has no \<open>hash\<close> member yet; its result becomes \<open>hash\<close>.
\<close>

definition Block ::
  "(string \<Rightarrow> string) \<Rightarrow> json \<Rightarrow> json \<Rightarrow> json \<Rightarrow> json \<Rightarrow> json \<Rightarrow> json \<Rightarrow> json \<Rightarrow> json \<Rightarrow> block" where
  "Block sha256 index' timestamp' art_hash' owner_name' owner_pubkey' signature' metadata'
         previous_hash' =
     (let self_dict =
            [(''index'', index'), (''timestamp'', timestamp'), (''art_hash'', art_hash'),
             (''owner_name'', owner_name'), (''owner_pubkey'', owner_pubkey'),
             (''signature'', signature'), (''metadata'', metadata'),
             (''previous_hash'', previous_hash'), (''nonce'', JInt 0)]
      in \<lparr> index = index', timestamp = timestamp', art_hash = art_hash',
           owner_name = owner_name', owner_pubkey = owner_pubkey',
           signature = signature', metadata = metadata',
           previous_hash = previous_hash', nonce = JInt 0,
           hash = JStr (compute_hash_dict sha256 self_dict) \<rparr>)"

section \<open>Blockchain (app3.py)\<close>

record blockchain =
  chain :: "block list"

text \<open>\<open>now\<close> is \<open>str(datetime.now())\<close>, read by the caller.\<close>

definition create_genesis_block :: "(string \<Rightarrow> string) \<Rightarrow> string \<Rightarrow> blockchain \<Rightarrow> blockchain" where
  "create_genesis_block sha256 now self =
     (let genesis_block =
            Block sha256 (JInt 0) (JStr now) (JStr ''0'') (JStr ''Genesis'') JNull JNull
                  (JObj [(''title'', JStr ''Genesis Block'')]) (JStr ''0'')
      in self\<lparr>chain := chain self @ [genesis_block]\<rparr>)"

definition Blockchain :: "(string \<Rightarrow> string) \<Rightarrow> string \<Rightarrow> blockchain" where
  "Blockchain sha256 now = create_genesis_block sha256 now \<lparr> chain = [] \<rparr>"

text \<open>\<open>self.chain[-1]\<close> raises IndexError on an empty list.\<close>

definition add_block ::
  "(string \<Rightarrow> string) \<Rightarrow> string \<Rightarrow> json \<Rightarrow> json \<Rightarrow> json \<Rightarrow> json \<Rightarrow> json \<Rightarrow> blockchain
     \<Rightarrow> error + (block \<times> blockchain)" where
  "add_block sha256 now art_hash' owner_name' owner_pubkey' signature' metadata' self =
     (if chain self = [] then Inl IndexError
      else
        let previous_block = last (chain self);
            new_block = Block sha256 (JInt (int (length (chain self)))) (JStr now) art_hash'
                              owner_name' owner_pubkey' signature' metadata'
                              (hash previous_block)
        in Inr (new_block, self\<lparr>chain := chain self @ [new_block]\<rparr>))"

text \<open>The loop of \<open>is_chain_valid\<close>, from index \<open>i\<close> on.\<close>

function is_chain_valid_from :: "(string \<Rightarrow> string) \<Rightarrow> block list \<Rightarrow> nat \<Rightarrow> bool" where
  "is_chain_valid_from sha256 c i =
     (if i < length c then
        (let prev = c ! (i - 1); curr = c ! i
         in if \<not> py_eq (hash curr) (JStr (compute_hash sha256 curr)) then False
            else if \<not> py_eq (previous_hash curr) (hash prev) then False
            else is_chain_valid_from sha256 c (i + 1))
      else True)"
  by pat_completeness auto
termination
  by (relation "measure (\<lambda>(sha256, c, i). length c - i)") auto

declare is_chain_valid_from.simps [simp del]

definition is_chain_valid :: "(string \<Rightarrow> string) \<Rightarrow> blockchain \<Rightarrow> bool" where
  "is_chain_valid sha256 self = is_chain_valid_from sha256 (chain self) 1"

section \<open>Persistence (app3.py)\<close>

text \<open>
  The storage file is absent (\<open>None\<close>) or holds JSON text, which stands here for the
  document it denotes. \<open>load\<close> is modelled on the document; what \<open>save\<close> writes for the
  values of a chain, and what \<open>json.load\<close> makes of it, is modelled in the section on
  Python values.
\<close>

type_synonym storage = "json option"

text \<open>\<open>block_data[key]\<close>, \<open>block_data.get(key, default)\<close> and \<open>for block_data in data\<close>.\<close>

fun getitem :: "json \<Rightarrow> string \<Rightarrow> error + json" where
  "getitem (JObj kvs) key = (case map_of kvs key of None \<Rightarrow> Inl (KeyError key) | Some v \<Rightarrow> Inr v)"
| "getitem _ key = Inl TypeError"

fun dict_get :: "json \<Rightarrow> string \<Rightarrow> json \<Rightarrow> error + json" where
  "dict_get (JObj kvs) key dflt = (case map_of kvs key of None \<Rightarrow> Inr dflt | Some v \<Rightarrow> Inr v)"
| "dict_get _ key dflt = Inl AttributeError"

fun iterate :: "json \<Rightarrow> error + json list" where
  "iterate (JArr xs) = Inr xs"
| "iterate (JObj kvs) = Inr (map (\<lambda>kv. JStr (fst kv)) kvs)"
| "iterate (JStr s) = Inr (map (\<lambda>c. JStr [c]) s)"
| "iterate _ = Inl TypeError"

definition bind_result :: "error + 'a \<Rightarrow> ('a \<Rightarrow> error + 'b) \<Rightarrow> error + 'b" where
  "bind_result r f = (case r of Inl e \<Rightarrow> Inl e | Inr x \<Rightarrow> f x)"

text \<open>One turn of the loop of \<open>load\<close>: the block built from one persisted object.\<close>

definition load_block :: "(string \<Rightarrow> string) \<Rightarrow> json \<Rightarrow> error + block" where
  "load_block sha256 block_data =
     bind_result (getitem block_data ''index'') (\<lambda>index'.
     bind_result (getitem block_data ''timestamp'') (\<lambda>timestamp'.
     bind_result (getitem block_data ''art_hash'') (\<lambda>art_hash'.
     bind_result (getitem block_data ''owner_name'') (\<lambda>owner_name'.
     bind_result (dict_get block_data ''owner_pubkey'' JNull) (\<lambda>owner_pubkey'.
     bind_result (dict_get block_data ''signature'' JNull) (\<lambda>signature'.
     bind_result (getitem block_data ''metadata'') (\<lambda>metadata'.
     bind_result (getitem block_data ''previous_hash'') (\<lambda>previous_hash'.
     let block = Block sha256 index' timestamp' art_hash' owner_name' owner_pubkey'
                       signature' metadata' previous_hash'
     in
     bind_result (dict_get block_data ''nonce'' (JInt 0)) (\<lambda>nonce'.
     let block = block\<lparr>nonce := nonce'\<rparr> in
     bind_result (getitem block_data ''hash'') (\<lambda>hash'.
     let block = block\<lparr>hash := hash'\<rparr> in
     Inr block))))))))))"

fun load_loop :: "(string \<Rightarrow> string) \<Rightarrow> json list \<Rightarrow> blockchain \<Rightarrow> error + blockchain" where
  "load_loop sha256 [] blockchain = Inr blockchain"
| "load_loop sha256 (block_data # rest) blockchain =
     (case load_block sha256 block_data of
        Inl e \<Rightarrow> Inl e
      | Inr block \<Rightarrow> load_loop sha256 rest (blockchain\<lparr>chain := chain blockchain @ [block]\<rparr>))"

definition load :: "(string \<Rightarrow> string) \<Rightarrow> string \<Rightarrow> storage \<Rightarrow> error + blockchain" where
  "load sha256 now file =
     (case file of
        Some data \<Rightarrow>
          (let blockchain = Blockchain sha256 now;
               blockchain = blockchain\<lparr>chain := []\<rparr>
           in bind_result (iterate data) (\<lambda>items. load_loop sha256 items blockchain))
      | None \<Rightarrow> Inr (Blockchain sha256 now))"

section \<open>The earlier version (app2.py)\<close>

text \<open>
  app2.py has the same classes with one owner attribute (\<open>owner\<close>) and no key or
  signature. Its \<open>compute_hash\<close> encodes \<open>self.__dict__\<close> as it is.
\<close>

record block2 =
  index2 :: json
  timestamp2 :: json
  art_hash2 :: json
  owner2 :: json
  metadata2 :: json
  previous_hash2 :: json
  nonce2 :: json
  hash2 :: json

definition dict_of2 :: "block2 \<Rightarrow> (string \<times> json) list" where
  "dict_of2 b =
     [(''index'', index2 b), (''timestamp'', timestamp2 b), (''art_hash'', art_hash2 b),
      (''owner'', owner2 b), (''metadata'', metadata2 b),
      (''previous_hash'', previous_hash2 b), (''nonce'', nonce2 b), (''hash'', hash2 b)]"

definition compute_hash_dict2 :: "(string \<Rightarrow> string) \<Rightarrow> (string \<times> json) list \<Rightarrow> string" where
  "compute_hash_dict2 sha256 self_dict =
     (let block_string = dumps (JObj self_dict)
      in sha256 block_string)"

definition compute_hash2 :: "(string \<Rightarrow> string) \<Rightarrow> block2 \<Rightarrow> string" where
  "compute_hash2 sha256 b = compute_hash_dict2 sha256 (dict_of2 b)"

definition Block2 ::
  "(string \<Rightarrow> string) \<Rightarrow> json \<Rightarrow> json \<Rightarrow> json \<Rightarrow> json \<Rightarrow> json \<Rightarrow> json \<Rightarrow> block2" where
  "Block2 sha256 index' timestamp' art_hash' owner' metadata' previous_hash' =
     (let self_dict =
            [(''index'', index'), (''timestamp'', timestamp'), (''art_hash'', art_hash'),
             (''owner'', owner'), (''metadata'', metadata'),
             (''previous_hash'', previous_hash'), (''nonce'', JInt 0)]
      in \<lparr> index2 = index', timestamp2 = timestamp', art_hash2 = art_hash',
           owner2 = owner', metadata2 = metadata',
           previous_hash2 = previous_hash', nonce2 = JInt 0,
           hash2 = JStr (compute_hash_dict2 sha256 self_dict) \<rparr>)"

record blockchain2 =
  chain2 :: "block2 list"

definition create_genesis_block2 :: "(string \<Rightarrow> string) \<Rightarrow> string \<Rightarrow> blockchain2 \<Rightarrow> blockchain2" where
  "create_genesis_block2 sha256 now self =
     (let genesis_block =
            Block2 sha256 (JInt 0) (JStr now) (JStr ''0'') (JStr ''Genesis'')
                   (JObj [(''title'', JStr ''Genesis Block'')]) (JStr ''0'')
      in self\<lparr>chain2 := chain2 self @ [genesis_block]\<rparr>)"

definition Blockchain2 :: "(string \<Rightarrow> string) \<Rightarrow> string \<Rightarrow> blockchain2" where
  "Blockchain2 sha256 now = create_genesis_block2 sha256 now \<lparr> chain2 = [] \<rparr>"

definition add_block2 ::
  "(string \<Rightarrow> string) \<Rightarrow> string \<Rightarrow> json \<Rightarrow> json \<Rightarrow> json \<Rightarrow> blockchain2
     \<Rightarrow> error + (block2 \<times> blockchain2)" where
  "add_block2 sha256 now art_hash' owner' metadata' self =
     (if chain2 self = [] then Inl IndexError
      else
        let previous_block = last (chain2 self);
            new_block = Block2 sha256 (JInt (int (length (chain2 self)))) (JStr now) art_hash'
                               owner' metadata' (hash2 previous_block)
        in Inr (new_block, self\<lparr>chain2 := chain2 self @ [new_block]\<rparr>))"

function is_chain_valid_from2 :: "(string \<Rightarrow> string) \<Rightarrow> block2 list \<Rightarrow> nat \<Rightarrow> bool" where
  "is_chain_valid_from2 sha256 c i =
     (if i < length c then
        (let prev = c ! (i - 1); curr = c ! i
         in if \<not> py_eq (hash2 curr) (JStr (compute_hash2 sha256 curr)) then False
            else if \<not> py_eq (previous_hash2 curr) (hash2 prev) then False
            else is_chain_valid_from2 sha256 c (i + 1))
      else True)"
  by pat_completeness auto
termination
  by (relation "measure (\<lambda>(sha256, c, i). length c - i)") auto

declare is_chain_valid_from2.simps [simp del]

definition is_chain_valid2 :: "(string \<Rightarrow> string) \<Rightarrow> blockchain2 \<Rightarrow> bool" where
  "is_chain_valid2 sha256 self = is_chain_valid_from2 sha256 (chain2 self) 1"

definition load_block2 :: "(string \<Rightarrow> string) \<Rightarrow> json \<Rightarrow> error + block2" where
  "load_block2 sha256 block_data =
     bind_result (getitem block_data ''index'') (\<lambda>index'.
     bind_result (getitem block_data ''timestamp'') (\<lambda>timestamp'.
     bind_result (getitem block_data ''art_hash'') (\<lambda>art_hash'.
     bind_result (getitem block_data ''owner'') (\<lambda>owner'.
     bind_result (getitem block_data ''metadata'') (\<lambda>metadata'.
     bind_result (getitem block_data ''previous_hash'') (\<lambda>previous_hash'.
     let block = Block2 sha256 index' timestamp' art_hash' owner' metadata' previous_hash'
     in
     bind_result (dict_get block_data ''nonce'' (JInt 0)) (\<lambda>nonce'.
     let block = block\<lparr>nonce2 := nonce'\<rparr> in
     bind_result (getitem block_data ''hash'') (\<lambda>hash'.
     let block = block\<lparr>hash2 := hash'\<rparr> in
     Inr block))))))))"

fun load_loop2 :: "(string \<Rightarrow> string) \<Rightarrow> json list \<Rightarrow> blockchain2 \<Rightarrow> error + blockchain2" where
  "load_loop2 sha256 [] blockchain = Inr blockchain"
| "load_loop2 sha256 (block_data # rest) blockchain =
     (case load_block2 sha256 block_data of
        Inl e \<Rightarrow> Inl e
      | Inr block \<Rightarrow> load_loop2 sha256 rest (blockchain\<lparr>chain2 := chain2 blockchain @ [block]\<rparr>))"

definition load2 :: "(string \<Rightarrow> string) \<Rightarrow> string \<Rightarrow> storage \<Rightarrow> error + blockchain2" where
  "load2 sha256 now file =
     (case file of
        Some data \<Rightarrow>
          (let blockchain = Blockchain2 sha256 now;
               blockchain = blockchain\<lparr>chain2 := []\<rparr>
           in bind_result (iterate data) (\<lambda>items. load_loop2 sha256 items blockchain))
      | None \<Rightarrow> Inr (Blockchain2 sha256 now))"

section \<open>Signature check (app3.py)\<close>

text \<open>
  \<open>verify_signature\<close> wraps three library calls in \<open>try\<close> with a bare \<open>except\<close>:
  \<open>base64.b64decode\<close>, \<open>str.encode\<close> and \<open>VerifyingKey.verify\<close>. They are parameters
  here; each returns its value or the exception it raises.
\<close>

definition verify_signature ::
  "('s \<Rightarrow> 'e + 'bytes) \<Rightarrow> ('m \<Rightarrow> 'e + 'bytes) \<Rightarrow> ('vk \<Rightarrow> 'bytes \<Rightarrow> 'bytes \<Rightarrow> 'e + bool)
     \<Rightarrow> 'vk \<Rightarrow> 'm \<Rightarrow> 's \<Rightarrow> bool" where
  "verify_signature b64decode encode verify vk art_hash' signature' =
     (case b64decode signature' of
        Inl e \<Rightarrow> False
      | Inr sig_bytes \<Rightarrow>
          (case encode art_hash' of
             Inl e \<Rightarrow> False
           | Inr msg_bytes \<Rightarrow>
               (case verify vk sig_bytes msg_bytes of
                  Inl e \<Rightarrow> False
                | Inr ok \<Rightarrow> ok)))"

section \<open>Vocabulary of the properties\<close>

text \<open>The keys that \<open>load\<close> reads with \<open>block_data[key]\<close>, in app3.py and in app2.py.\<close>

definition required_keys :: "string list" where
  "required_keys =
     [''index'', ''timestamp'', ''art_hash'', ''owner_name'', ''metadata'',
      ''previous_hash'', ''hash'']"

definition required_keys2 :: "string list" where
  "required_keys2 =
     [''index'', ''timestamp'', ''art_hash'', ''owner'', ''metadata'',
      ''previous_hash'', ''hash'']"

text \<open>The attributes of a block of app3.py.\<close>

datatype attr =
    Index | Timestamp | Art_hash | Owner_name | Owner_pubkey | Signature | Metadata
  | Previous_hash | Nonce | Hash

text \<open>A value is well formed when no dictionary in it has a key twice.\<close>

fun wf_json :: "json \<Rightarrow> bool" where
  "wf_json (JArr xs) = list_all wf_json xs"
| "wf_json (JObj kvs) = (distinct (map fst kvs) \<and> list_all (\<lambda>kv. wf_json (snd kv)) kvs)"
| "wf_json _ = True"

text \<open>
  What is assumed of the digest where a property depends on it: that two given texts
  are not a collision.
\<close>

definition no_collision :: "(string \<Rightarrow> string) \<Rightarrow> string \<Rightarrow> string \<Rightarrow> bool" where
  "no_collision sha256 s t = (sha256 s = sha256 t \<longrightarrow> s = t)"

text \<open>
  Reading the encoding back, as far as the proofs need it: the digits of a number, and
  the character at the front of an escaped string.
\<close>

definition is_digit :: "char \<Rightarrow> bool" where
  "is_digit c = (48 \<le> (of_char c :: nat) \<and> (of_char c :: nat) \<le> 57)"

definition digits_val :: "string \<Rightarrow> nat" where
  "digits_val ds = foldl (\<lambda>a c. 10 * a + ((of_char c :: nat) - 48)) 0 ds"

fun no_digit_ahead :: "string \<Rightarrow> bool" where
  "no_digit_ahead [] = True"
| "no_digit_ahead (c # cs) = (\<not> is_digit c)"

definition hex_val :: "char \<Rightarrow> nat" where
  "hex_val c = (if (of_char c :: nat) < 58 then of_char c - 48 else of_char c - 87)"

definition unescape_short :: "char \<Rightarrow> char" where
  "unescape_short y =
     (if y = CHR ''b'' then CHR 0x08
      else if y = CHR ''f'' then CHR 0x0C
      else if y = CHR ''n'' then CHR 0x0A
      else if y = CHR ''r'' then CHR 0x0D
      else if y = CHR ''t'' then CHR 0x09
      else y)"

definition unescape_char :: "string \<Rightarrow> char \<times> string" where
  "unescape_char s =
     (if hd s \<noteq> CHR 0x5C then (hd s, tl s)
      else if hd (tl s) = CHR ''u''
        then (char_of (hex_val (s ! 4) * 16 + hex_val (s ! 5)), drop 6 s)
      else (unescape_short (hd (tl s)), drop 2 s))"

text \<open>The chains that the constructor and \<open>add_block\<close> build.\<close>

inductive built :: "(string \<Rightarrow> string) \<Rightarrow> blockchain \<Rightarrow> bool" for sha256 where
  built_new: "built sha256 (Blockchain sha256 now)"
| built_add: "built sha256 self
     \<Longrightarrow> add_block sha256 now ah on pk sg md self = Inr (new_block, self')
     \<Longrightarrow> built sha256 self'"

section \<open>Python values (app3.py)\<close>

text \<open>
  The models above let an attribute hold a JSON document. A caller can pass other values
  to \<open>add_block\<close> or assign them to an attribute. The type \<open>pyval\<close> adds the ones that
  matter for hashing and for the storage file: tuples, dictionaries whose keys are
  integers as well as strings, and \<open>bytes\<close>, which stands for the values that
  \<open>json.dumps\<close> refuses. Numbers with a fraction, keys of other types and code points
  above 255 are not part of the model. app3.py is modelled once more over these values,
  with the names of the source followed by \<open>_py\<close>.
\<close>

datatype pykey = KStr string | KInt int

datatype pyval =
    PNone
  | PBool bool
  | PInt int
  | PStr string
  | PList "pyval list"
  | PTuple "pyval list"
  | PDict "(pykey \<times> pyval) list"
  | PBytes string

text \<open>Python's \<open>==\<close>: a list is never equal to a tuple, nor the key \<open>1\<close> to the key \<open>"1"\<close>.\<close>

fun pyeq :: "pyval \<Rightarrow> pyval \<Rightarrow> bool" where
  "pyeq PNone PNone = True"
| "pyeq (PBool a) (PBool b) = (a = b)"
| "pyeq (PBool a) (PInt j) = ((if a then 1 else 0) = j)"
| "pyeq (PInt i) (PBool b) = (i = (if b then 1 else 0))"
| "pyeq (PInt i) (PInt j) = (i = j)"
| "pyeq (PStr s) (PStr t) = (s = t)"
| "pyeq (PList xs) (PList ys) = list_all2 pyeq xs ys"
| "pyeq (PTuple xs) (PTuple ys) = list_all2 pyeq xs ys"
| "pyeq (PDict kvs) (PDict kws) =
     (length kvs = length kws \<and>
      list_all (\<lambda>kv. case map_of kws (fst kv) of
                        None \<Rightarrow> False
                      | Some w \<Rightarrow> pyeq (snd kv) w) kvs)"
| "pyeq (PBytes s) (PBytes t) = (s = t)"
| "pyeq _ _ = False"

text \<open>
  \<open>json.dumps(v, sort_keys=True)\<close>; \<open>None\<close> when it raises TypeError. A tuple is written
  as a list and an integer key as the string of its digits. The members of a dictionary
  are sorted by their keys before the keys become strings; sorting raises TypeError when
  strings and integers are compared.
\<close>

fun key_str :: "pykey \<Rightarrow> string" where
  "key_str (KStr s) = s"
| "key_str (KInt i) = int_repr i"

fun is_KStr :: "pykey \<Rightarrow> bool" where
  "is_KStr (KStr s) = True"
| "is_KStr (KInt i) = False"

fun key_int :: "pykey \<Rightarrow> int" where
  "key_int (KInt i) = i"
| "key_int (KStr s) = 0"

definition sort_items :: "(pykey \<times> 'a) list \<Rightarrow> (pykey \<times> 'a) list option" where
  "sort_items items =
     (if list_all (\<lambda>kv. is_KStr (fst kv)) items
        then Some (sort_key (\<lambda>kv. key_str (fst kv)) items)
      else if list_all (\<lambda>kv. \<not> is_KStr (fst kv)) items
        then Some (sort_key (\<lambda>kv. key_int (fst kv)) items)
      else None)"

fun pydumps :: "pyval \<Rightarrow> string option" where
  "pydumps PNone = Some ''null''"
| "pydumps (PBool b) = Some (if b then ''true'' else ''false'')"
| "pydumps (PInt i) = Some (int_repr i)"
| "pydumps (PStr s) = Some (encode_basestring_ascii s)"
| "pydumps (PList xs) =
     map_option (\<lambda>parts. ''['' @ join '', '' parts @ '']'') (those (map pydumps xs))"
| "pydumps (PTuple xs) =
     map_option (\<lambda>parts. ''['' @ join '', '' parts @ '']'') (those (map pydumps xs))"
| "pydumps (PDict kvs) =
     (case those (map (\<lambda>kv. map_option (Pair (fst kv)) (pydumps (snd kv))) kvs) of
        None \<Rightarrow> None
      | Some kts \<Rightarrow>
          (case sort_items kts of
             None \<Rightarrow> None
           | Some items \<Rightarrow>
               Some (''{'' @ join '', ''
                        (map (\<lambda>kt. encode_basestring_ascii (key_str (fst kt)) @ '': '' @ snd kt)
                             items) @ ''}'')))"
| "pydumps (PBytes s) = None"







subsection \<open>Block and Blockchain\<close>

text \<open>
  \<open>compute_hash\<close> raises TypeError when an attribute cannot be encoded, and so do
  \<open>__init__\<close> and \<open>add_block\<close>, which call it.
\<close>

record block_py =
  index_py :: pyval
  timestamp_py :: pyval
  art_hash_py :: pyval
  owner_name_py :: pyval
  owner_pubkey_py :: pyval
  signature_py :: pyval
  metadata_py :: pyval
  previous_hash_py :: pyval
  nonce_py :: pyval
  hash_py :: pyval

definition dict_of_py :: "block_py \<Rightarrow> (pykey \<times> pyval) list" where
  "dict_of_py b =
     [(KStr ''index'', index_py b), (KStr ''timestamp'', timestamp_py b),
      (KStr ''art_hash'', art_hash_py b), (KStr ''owner_name'', owner_name_py b),
      (KStr ''owner_pubkey'', owner_pubkey_py b), (KStr ''signature'', signature_py b),
      (KStr ''metadata'', metadata_py b), (KStr ''previous_hash'', previous_hash_py b),
      (KStr ''nonce'', nonce_py b), (KStr ''hash'', hash_py b)]"

definition dict_pop_py :: "string \<Rightarrow> (pykey \<times> pyval) list \<Rightarrow> (pykey \<times> pyval) list" where
  "dict_pop_py key d = filter (\<lambda>kv. fst kv \<noteq> KStr key) d"

definition compute_hash_dict_py ::
  "(string \<Rightarrow> string) \<Rightarrow> (pykey \<times> pyval) list \<Rightarrow> error + string" where
  "compute_hash_dict_py sha256 self_dict =
     (let block_dict = dict_pop_py ''hash'' self_dict
      in case pydumps (PDict block_dict) of
           None \<Rightarrow> Inl TypeError
         | Some text \<Rightarrow> Inr (sha256 text))"

definition compute_hash_py :: "(string \<Rightarrow> string) \<Rightarrow> block_py \<Rightarrow> error + string" where
  "compute_hash_py sha256 b = compute_hash_dict_py sha256 (dict_of_py b)"

definition Block_py ::
  "(string \<Rightarrow> string) \<Rightarrow> pyval \<Rightarrow> pyval \<Rightarrow> pyval \<Rightarrow> pyval \<Rightarrow> pyval \<Rightarrow> pyval \<Rightarrow> pyval \<Rightarrow> pyval
     \<Rightarrow> error + block_py" where
  "Block_py sha256 index' timestamp' art_hash' owner_name' owner_pubkey' signature' metadata'
            previous_hash' =
     (let self_dict =
            [(KStr ''index'', index'), (KStr ''timestamp'', timestamp'),
             (KStr ''art_hash'', art_hash'), (KStr ''owner_name'', owner_name'),
             (KStr ''owner_pubkey'', owner_pubkey'), (KStr ''signature'', signature'),
             (KStr ''metadata'', metadata'), (KStr ''previous_hash'', previous_hash'),
             (KStr ''nonce'', PInt 0)]
      in bind_result (compute_hash_dict_py sha256 self_dict) (\<lambda>h.
           Inr \<lparr> index_py = index', timestamp_py = timestamp', art_hash_py = art_hash',
                 owner_name_py = owner_name', owner_pubkey_py = owner_pubkey',
                 signature_py = signature', metadata_py = metadata',
                 previous_hash_py = previous_hash', nonce_py = PInt 0,
                 hash_py = PStr h \<rparr>))"

record blockchain_py =
  chain_py :: "block_py list"

definition create_genesis_block_py ::
  "(string \<Rightarrow> string) \<Rightarrow> string \<Rightarrow> blockchain_py \<Rightarrow> error + blockchain_py" where
  "create_genesis_block_py sha256 now self =
     bind_result
       (Block_py sha256 (PInt 0) (PStr now) (PStr ''0'') (PStr ''Genesis'') PNone PNone
                 (PDict [(KStr ''title'', PStr ''Genesis Block'')]) (PStr ''0''))
       (\<lambda>genesis_block. Inr (self\<lparr>chain_py := chain_py self @ [genesis_block]\<rparr>))"

definition Blockchain_py :: "(string \<Rightarrow> string) \<Rightarrow> string \<Rightarrow> error + blockchain_py" where
  "Blockchain_py sha256 now = create_genesis_block_py sha256 now \<lparr> chain_py = [] \<rparr>"

definition add_block_py ::
  "(string \<Rightarrow> string) \<Rightarrow> string \<Rightarrow> pyval \<Rightarrow> pyval \<Rightarrow> pyval \<Rightarrow> pyval \<Rightarrow> pyval \<Rightarrow> blockchain_py
     \<Rightarrow> error + (block_py \<times> blockchain_py)" where
  "add_block_py sha256 now art_hash' owner_name' owner_pubkey' signature' metadata' self =
     (if chain_py self = [] then Inl IndexError
      else
        let previous_block = last (chain_py self)
        in bind_result
             (Block_py sha256 (PInt (int (length (chain_py self)))) (PStr now) art_hash'
                       owner_name' owner_pubkey' signature' metadata'
                       (hash_py previous_block))
             (\<lambda>new_block.
                Inr (new_block, self\<lparr>chain_py := chain_py self @ [new_block]\<rparr>)))"

function is_chain_valid_from_py ::
  "(string \<Rightarrow> string) \<Rightarrow> block_py list \<Rightarrow> nat \<Rightarrow> error + bool" where
  "is_chain_valid_from_py sha256 c i =
     (if i < length c then
        (let prev = c ! (i - 1); curr = c ! i
         in bind_result (compute_hash_py sha256 curr) (\<lambda>h.
              if \<not> pyeq (hash_py curr) (PStr h) then Inr False
              else if \<not> pyeq (previous_hash_py curr) (hash_py prev) then Inr False
              else is_chain_valid_from_py sha256 c (i + 1)))
      else Inr True)"
  by pat_completeness auto
termination
  by (relation "measure (\<lambda>(sha256, c, i). length c - i)") auto

declare is_chain_valid_from_py.simps [simp del]

definition is_chain_valid_py :: "(string \<Rightarrow> string) \<Rightarrow> blockchain_py \<Rightarrow> error + bool" where
  "is_chain_valid_py sha256 self = is_chain_valid_from_py sha256 (chain_py self) 1"

subsection \<open>Persistence\<close>










subsection \<open>Vocabulary\<close>

text \<open>The attribute read, an assignment \<open>block.attr = v\<close>, and a function applied to every attribute.\<close>

fun get_attr_py :: "attr \<Rightarrow> block_py \<Rightarrow> pyval" where
  "get_attr_py Index b = index_py b"
| "get_attr_py Timestamp b = timestamp_py b"
| "get_attr_py Art_hash b = art_hash_py b"
| "get_attr_py Owner_name b = owner_name_py b"
| "get_attr_py Owner_pubkey b = owner_pubkey_py b"
| "get_attr_py Signature b = signature_py b"
| "get_attr_py Metadata b = metadata_py b"
| "get_attr_py Previous_hash b = previous_hash_py b"
| "get_attr_py Nonce b = nonce_py b"
| "get_attr_py Hash b = hash_py b"

fun set_attr_py :: "attr \<Rightarrow> pyval \<Rightarrow> block_py \<Rightarrow> block_py" where
  "set_attr_py Index v b = b\<lparr>index_py := v\<rparr>"
| "set_attr_py Timestamp v b = b\<lparr>timestamp_py := v\<rparr>"
| "set_attr_py Art_hash v b = b\<lparr>art_hash_py := v\<rparr>"
| "set_attr_py Owner_name v b = b\<lparr>owner_name_py := v\<rparr>"
| "set_attr_py Owner_pubkey v b = b\<lparr>owner_pubkey_py := v\<rparr>"
| "set_attr_py Signature v b = b\<lparr>signature_py := v\<rparr>"
| "set_attr_py Metadata v b = b\<lparr>metadata_py := v\<rparr>"
| "set_attr_py Previous_hash v b = b\<lparr>previous_hash_py := v\<rparr>"
| "set_attr_py Nonce v b = b\<lparr>nonce_py := v\<rparr>"
| "set_attr_py Hash v b = b\<lparr>hash_py := v\<rparr>"


text \<open>The text that \<open>compute_hash\<close> digests, when there is one.\<close>

definition hash_input_py :: "block_py \<Rightarrow> string option" where
  "hash_input_py b = pydumps (PDict (dict_pop_py ''hash'' (dict_of_py b)))"

text \<open>What the loop of \<open>is_chain_valid\<close> finds at record \<open>j\<close>: both checks pass, one fails, or \<open>compute_hash\<close> raises.\<close>

definition record_ok_py :: "(string \<Rightarrow> string) \<Rightarrow> block_py list \<Rightarrow> nat \<Rightarrow> error + bool" where
  "record_ok_py sha256 c j =
     bind_result (compute_hash_py sha256 (c ! j)) (\<lambda>h.
       Inr (pyeq (hash_py (c ! j)) (PStr h)
            \<and> pyeq (previous_hash_py (c ! j)) (hash_py (c ! (j - 1)))))"

text \<open>\<open>block.hash = block.compute_hash()\<close>, which raises when the block cannot be encoded.\<close>

definition rehash_py :: "(string \<Rightarrow> string) \<Rightarrow> block_py \<Rightarrow> error + block_py" where
  "rehash_py sha256 b =
     bind_result (compute_hash_py sha256 b) (\<lambda>h. Inr (b\<lparr>hash_py := PStr h\<rparr>))"

text \<open>The chains that the constructor and \<open>add_block\<close> build.\<close>

inductive built_py :: "(string \<Rightarrow> string) \<Rightarrow> blockchain_py \<Rightarrow> bool" for sha256 where
  built_py_new: "Blockchain_py sha256 now = Inr self \<Longrightarrow> built_py sha256 self"
| built_py_add: "built_py sha256 self
     \<Longrightarrow> add_block_py sha256 now ah on pk sg md self = Inr (new_block, self')
     \<Longrightarrow> built_py sha256 self'"

text \<open>
  The text that \<open>compute_hash\<close> digests, from the texts of the nine attributes it encodes
  (members in key order).
\<close>

definition record_text :: "(attr \<Rightarrow> string) \<Rightarrow> string" where
  "record_text t =
     ''{'' @ join '', ''
       (map (\<lambda>kt. encode_basestring_ascii (fst kt) @ '': '' @ snd kt)
          [(''art_hash'', t Art_hash), (''index'', t Index), (''metadata'', t Metadata),
           (''nonce'', t Nonce), (''owner_name'', t Owner_name),
           (''owner_pubkey'', t Owner_pubkey), (''previous_hash'', t Previous_hash),
           (''signature'', t Signature), (''timestamp'', t Timestamp)]) @ ''}''"

text \<open>A JSON document as the Python value it is.\<close>

fun embed :: "json \<Rightarrow> pyval" where
  "embed JNull = PNone"
| "embed (JBool b) = PBool b"
| "embed (JInt i) = PInt i"
| "embed (JStr s) = PStr s"
| "embed (JArr xs) = PList (map embed xs)"
| "embed (JObj kvs) = PDict (map (\<lambda>kv. (KStr (fst kv), embed (snd kv))) kvs)"

section \<open>Example data\<close>

text \<open>
  The scenario of the specification: a new chain, then one record for the content hash
  \<open>"abc123"\<close> owned by \<open>"alice"\<close>. The identity stands for the digest where a concrete
  collision-free function is needed. In app2.py, the record that \<open>add_block\<close> builds on
  a new chain:
\<close>

definition example_block2 :: block2 where
  "example_block2 =
     Block2 id (JInt 1) (JStr ''t1'') (JStr ''abc123'') (JStr ''alice'')
            (JObj [(''title'', JStr ''Sunset'')])
            (hash2 (last (chain2 (Blockchain2 id ''t0''))))"

text \<open>A persisted record without its \<open>metadata\<close> member, and a file that holds it.\<close>

definition example_record_no_metadata :: "(string \<times> json) list" where
  "example_record_no_metadata =
     [(''index'', JInt 1), (''timestamp'', JStr ''t1''), (''art_hash'', JStr ''abc123''),
      (''owner_name'', JStr ''alice''), (''owner'', JStr ''alice''),
      (''previous_hash'', JStr ''h0''), (''hash'', JStr ''h1'')]"

definition example_items :: "json list" where
  "example_items =
     [JObj [(''index'', JInt 0), (''timestamp'', JStr ''t0''), (''art_hash'', JStr ''0''),
            (''owner_name'', JStr ''Genesis''), (''owner'', JStr ''Genesis''),
            (''metadata'', JObj []), (''previous_hash'', JStr ''0''),
            (''hash'', JStr ''h0'')],
      JObj example_record_no_metadata]"

text \<open>
  The scenario once more with Python values: the record's metadata holds a list of tags.
  \<open>example_tuple_metadata\<close> is the same metadata with the tuple of the same tags, and
  \<open>example_chain_tuple\<close> the chain that \<open>add_block\<close> builds from it.
\<close>

definition example_list_metadata :: pyval where
  "example_list_metadata =
     PDict [(KStr ''title'', PStr ''Sunset''), (KStr ''tags'', PList [PStr ''a'', PStr ''b''])]"

definition example_tuple_metadata :: pyval where
  "example_tuple_metadata =
     PDict [(KStr ''title'', PStr ''Sunset''), (KStr ''tags'', PTuple [PStr ''a'', PStr ''b''])]"

definition minted_chain_py :: "pyval \<Rightarrow> blockchain_py" where
  "minted_chain_py metadata' =
     (case bind_result (Blockchain_py id ''t0'')
             (add_block_py id ''t1'' (PStr ''abc123'') (PStr ''alice'') PNone PNone metadata') of
        Inr (new_block, self) \<Rightarrow> self
      | Inl e \<Rightarrow> \<lparr> chain_py = [] \<rparr>)"

definition example_chain_py :: blockchain_py where
  "example_chain_py = minted_chain_py example_list_metadata"




text \<open>Record 1 of \<open>example_chain_py\<close> with another \<open>previous_hash\<close> and its hash computed again.\<close>

definition example_relinked :: block_py where
  "example_relinked =
     (case rehash_py id ((chain_py example_chain_py ! 1)\<lparr>previous_hash_py := PStr ''unrelated''\<rparr>) of
        Inr b \<Rightarrow> b
      | Inl e \<Rightarrow> chain_py example_chain_py ! 1)"


section \<open>Basic facts\<close>

lemma bind_result_Inl [simp]: "bind_result (Inl e) f = Inl e"
  by (simp add: bind_result_def)

lemma bind_result_Inr [simp]: "bind_result (Inr x) f = f x"
  by (simp add: bind_result_def)

lemma py_eq_JStr_right [simp]: "py_eq v (JStr s) \<longleftrightarrow> v = JStr s"
  by (cases v) auto

lemma chain_Blockchain:
  "chain (Blockchain sha256 now) =
     [Block sha256 (JInt 0) (JStr now) (JStr ''0'') (JStr ''Genesis'') JNull JNull
            (JObj [(''title'', JStr ''Genesis Block'')]) (JStr ''0'')]"
  by (simp add: Blockchain_def create_genesis_block_def)

lemma chain2_Blockchain2:
  "chain2 (Blockchain2 sha256 now) =
     [Block2 sha256 (JInt 0) (JStr now) (JStr ''0'') (JStr ''Genesis'')
             (JObj [(''title'', JStr ''Genesis Block'')]) (JStr ''0'')]"
  by (simp add: Blockchain2_def create_genesis_block2_def)

section \<open>Genesis\<close>

text \<open>
  Claim C3. A chain made by the constructor has exactly one record; its index is 0, its
  \<open>previous_hash\<close> and its content hash are \<open>"0"\<close>, its owner is \<open>"Genesis"\<close>, and
  \<open>is_chain_valid\<close> returns true on it.
\<close>

theorem genesis_invariant:
  "length (chain (Blockchain sha256 now)) = 1
   \<and> index (chain (Blockchain sha256 now) ! 0) = JInt 0
   \<and> previous_hash (chain (Blockchain sha256 now) ! 0) = JStr ''0''
   \<and> art_hash (chain (Blockchain sha256 now) ! 0) = JStr ''0''
   \<and> owner_name (chain (Blockchain sha256 now) ! 0) = JStr ''Genesis''
   \<and> is_chain_valid sha256 (Blockchain sha256 now)"
  by (simp add: chain_Blockchain Block_def is_chain_valid_def is_chain_valid_from.simps)

section \<open>Append\<close>

text \<open>
  Claim C4. On a chain that is not empty, \<open>add_block\<close> succeeds whatever the content
  hash, key and signature are (they are stored as given), appends exactly one record and
  returns it; the record's \<open>previous_hash\<close> is the hash of the former last record and its
  index is the former length. The same holds in app2.py.
\<close>

theorem add_block_links:
  assumes "chain self \<noteq> []" and "chain2 self2 \<noteq> []"
  shows "(\<exists>new_block.
            add_block sha256 now ah on pk sg md self
              = Inr (new_block, self\<lparr>chain := chain self @ [new_block]\<rparr>)
          \<and> previous_hash new_block = hash (last (chain self))
          \<and> index new_block = JInt (int (length (chain self)))
          \<and> art_hash new_block = ah \<and> owner_pubkey new_block = pk
          \<and> signature new_block = sg)
       \<and> (\<exists>new_block.
            add_block2 sha256 now ah on md self2
              = Inr (new_block, self2\<lparr>chain2 := chain2 self2 @ [new_block]\<rparr>)
          \<and> previous_hash2 new_block = hash2 (last (chain2 self2))
          \<and> index2 new_block = JInt (int (length (chain2 self2)))
          \<and> art_hash2 new_block = ah)"
  using assms by (simp add: add_block_def add_block2_def Let_def Block_def Block2_def)

theorem add_block_links_witness:
  "chain (Blockchain id ''t0'') \<noteq> [] \<and> chain2 (Blockchain2 id ''t0'') \<noteq> []
   \<and> (\<exists>new_block.
        add_block id ''t1'' (JStr ''abc123'') (JStr ''alice'') JNull (JStr ''not-a-signature'')
            (JObj [(''title'', JStr ''Sunset'')]) (Blockchain id ''t0'')
          = Inr (new_block,
                 (Blockchain id ''t0'')\<lparr>chain := chain (Blockchain id ''t0'') @ [new_block]\<rparr>)
        \<and> previous_hash new_block = hash (last (chain (Blockchain id ''t0'')))
        \<and> index new_block = JInt 1
        \<and> signature new_block = JStr ''not-a-signature'')
   \<and> (\<exists>new_block.
        add_block2 id ''t1'' (JStr ''abc123'') (JStr ''alice'')
            (JObj [(''title'', JStr ''Sunset'')]) (Blockchain2 id ''t0'')
          = Inr (new_block,
                 (Blockchain2 id ''t0'')\<lparr>chain2 := chain2 (Blockchain2 id ''t0'') @ [new_block]\<rparr>)
        \<and> previous_hash2 new_block = hash2 (last (chain2 (Blockchain2 id ''t0'')))
        \<and> index2 new_block = JInt 1)"
proof -
  have a: "chain (Blockchain id ''t0'') \<noteq> []"
    by (simp add: chain_Blockchain)
  have b: "chain2 (Blockchain2 id ''t0'') \<noteq> []"
    by (simp add: chain2_Blockchain2)
  have l: "length (chain (Blockchain id ''t0'')) = 1"
          "length (chain2 (Blockchain2 id ''t0'')) = 1"
    by (simp_all add: chain_Blockchain chain2_Blockchain2)
  from add_block_links [OF a b, of id "''t1''" "JStr ''abc123''" "JStr ''alice''" JNull
      "JStr ''not-a-signature''" "JObj [(''title'', JStr ''Sunset'')]"] a b l
  show ?thesis by auto
qed

section \<open>Persistence\<close>

text \<open>
  Claim C8. When the storage file is absent, \<open>load\<close> returns (it does not raise) a
  chain made by the constructor, whose only record is the genesis record; in app2.py too.
\<close>

theorem load_absent_storage:
  "load sha256 now None = Inr (Blockchain sha256 now)
   \<and> chain (Blockchain sha256 now) =
       [Block sha256 (JInt 0) (JStr now) (JStr ''0'') (JStr ''Genesis'') JNull JNull
              (JObj [(''title'', JStr ''Genesis Block'')]) (JStr ''0'')]
   \<and> load2 sha256 now None = Inr (Blockchain2 sha256 now)
   \<and> chain2 (Blockchain2 sha256 now) =
       [Block2 sha256 (JInt 0) (JStr now) (JStr ''0'') (JStr ''Genesis'')
               (JObj [(''title'', JStr ''Genesis Block'')]) (JStr ''0'')]"
  by (simp add: load_def load2_def chain_Blockchain chain2_Blockchain2)

text \<open>
  Claim C10. A file that holds an empty list loads as a chain with no record at all, and
  \<open>add_block\<close> on that chain raises IndexError (\<open>self.chain[-1]\<close>) instead of returning
  a record; in app2.py too.
\<close>

theorem load_empty_list_then_add_block:
  "load sha256 now (Some (JArr [])) = Inr \<lparr>chain = []\<rparr>
   \<and> add_block sha256 now' ah on pk sg md \<lparr>chain = []\<rparr> = Inl IndexError
   \<and> load2 sha256 now (Some (JArr [])) = Inr \<lparr>chain2 = []\<rparr>
   \<and> add_block2 sha256 now' ah on md \<lparr>chain2 = []\<rparr> = Inl IndexError"
  by (simp add: load_def load2_def add_block_def add_block2_def)

section \<open>The encoding determines the value\<close>

text \<open>
  Two values with the same encoding are equal in Python's sense. The encoding of a value
  can be read off the front of a text as soon as no digit follows it, which is the case
  inside a list or a dictionary, where a comma or the closing bracket follows.
\<close>

lemma of_char_digit_char: "d < 10 \<Longrightarrow> (of_char (digit_char d) :: nat) = 48 + d"
  by (simp add: digit_char_def)

lemma is_digit_digit_char: "d < 10 \<Longrightarrow> is_digit (digit_char d)"
  by (simp add: is_digit_def of_char_digit_char)

lemma nat_repr_digits: "list_all is_digit (nat_repr n)"
  by (induction n rule: nat_repr.induct)
     (subst nat_repr.simps, simp add: is_digit_digit_char)

lemma nat_repr_nonempty: "nat_repr n \<noteq> []"
  by (subst nat_repr.simps) simp

lemma digits_val_snoc: "digits_val (ds @ [c]) = 10 * digits_val ds + ((of_char c :: nat) - 48)"
  by (simp add: digits_val_def)

lemma digits_val_nat_repr: "digits_val (nat_repr n) = n"
proof (induction n rule: nat_repr.induct)
  case (1 n)
  show ?case
  proof (cases "n < 10")
    case True
    then show ?thesis
      by (subst nat_repr.simps) (simp add: digits_val_def of_char_digit_char)
  next
    case False
    then have "digits_val (nat_repr n) = 10 * digits_val (nat_repr (n div 10)) + (n mod 10)"
      by (subst nat_repr.simps) (simp add: digits_val_snoc of_char_digit_char)
    with 1 False show ?thesis by simp
  qed
qed

lemma nat_repr_inj: "nat_repr m = nat_repr n \<Longrightarrow> m = n"
  by (metis digits_val_nat_repr)

lemma takeWhile_digits:
  "list_all is_digit ds \<Longrightarrow> no_digit_ahead r \<Longrightarrow> takeWhile is_digit (ds @ r) = ds"
  by (induction ds) (auto simp: neq_Nil_conv elim: no_digit_ahead.elims)

lemma digits_split:
  assumes "list_all is_digit ds" "list_all is_digit es" "no_digit_ahead r" "no_digit_ahead r'"
    and "ds @ r = es @ r'"
  shows "ds = es \<and> r = r'"
proof -
  have "ds = takeWhile is_digit (ds @ r)"
    using assms(1,3) by (simp add: takeWhile_digits)
  also have "\<dots> = takeWhile is_digit (es @ r')"
    by (simp only: assms(5))
  also have "\<dots> = es"
    using assms(2,4) by (simp add: takeWhile_digits)
  finally have "ds = es" .
  with assms(5) show ?thesis by simp
qed

lemma int_repr_hd:
  "\<exists>a as. int_repr i = a # as \<and> (a = CHR ''-'' \<or> is_digit a)"
proof (cases "i < 0")
  case True
  then show ?thesis by (simp add: int_repr_def)
next
  case False
  obtain a as where "nat_repr (nat i) = a # as"
    using nat_repr_nonempty by (cases "nat_repr (nat i)") auto
  moreover have "is_digit a"
    using nat_repr_digits [of "nat i"] calculation by simp
  ultimately show ?thesis using False by (simp add: int_repr_def)
qed

lemma int_repr_split:
  assumes "no_digit_ahead r" "no_digit_ahead r'" "int_repr i @ r = int_repr j @ r'"
  shows "i = j \<and> r = r'"
proof -
  have nd: "\<And>n. \<exists>a as. nat_repr n = a # as \<and> is_digit a"
  proof -
    fix n
    obtain a as where "nat_repr n = a # as"
      using nat_repr_nonempty by (cases "nat_repr n") auto
    moreover have "is_digit a"
      using nat_repr_digits [of n] calculation by simp
    ultimately show "\<exists>a as. nat_repr n = a # as \<and> is_digit a" by blast
  qed
  have minus: "\<not> is_digit CHR ''-''" by (simp add: is_digit_def)
  consider (nn) "i < 0" "j < 0" | (np) "i < 0" "\<not> j < 0" | (pn) "\<not> i < 0" "j < 0"
    | (pp) "\<not> i < 0" "\<not> j < 0" by blast
  then show ?thesis
  proof cases
    case nn
    with assms(3) have "nat_repr (nat (- i)) @ r = nat_repr (nat (- j)) @ r'"
      by (simp add: int_repr_def)
    from digits_split [OF nat_repr_digits nat_repr_digits assms(1,2) this]
    have "nat (- i) = nat (- j)" "r = r'" by (auto dest: nat_repr_inj)
    with nn show ?thesis by simp
  next
    case np
    obtain a as where "nat_repr (nat j) = a # as" "is_digit a" using nd by blast
    with np assms(3) minus show ?thesis by (auto simp: int_repr_def)
  next
    case pn
    obtain a as where "nat_repr (nat i) = a # as" "is_digit a" using nd by blast
    with pn assms(3) minus show ?thesis by (auto simp: int_repr_def)
  next
    case pp
    with assms(3) have "nat_repr (nat i) @ r = nat_repr (nat j) @ r'"
      by (simp add: int_repr_def)
    from digits_split [OF nat_repr_digits nat_repr_digits assms(1,2) this]
    have "nat i = nat j" "r = r'" by (auto dest: nat_repr_inj)
    with pp show ?thesis by simp
  qed
qed

lemma hex_val_hex_char: "d < 16 \<Longrightarrow> hex_val (hex_char d) = d"
  by (auto simp: hex_val_def hex_char_def)

lemma hex_pair:
  "char_of (hex_val (hex_char ((of_char c :: nat) div 16)) * 16
            + hex_val (hex_char ((of_char c :: nat) mod 16))) = c"
proof -
  have "(of_char c :: nat) < 256"
    by (rule nat_of_char_less_256)
  then have "(of_char c :: nat) div 16 < 16"
    by arith
  then show ?thesis by (simp add: hex_val_hex_char)
qed

lemma unescape_escape: "unescape_char (escape_char c @ rest) = (c, rest)"
  unfolding escape_char_def unescape_char_def
  by (simp add: hex_pair unescape_short_def)

lemma escape_char_split:
  "escape_char c @ r = escape_char d @ r' \<Longrightarrow> c = d \<and> r = r'"
  by (metis unescape_escape prod.inject)

lemma escape_char_hd: "escape_char c @ r \<noteq> CHR 0x22 # r'"
  by (simp add: escape_char_def)

lemma escaped_split:
  "concat (map escape_char s) @ CHR 0x22 # r = concat (map escape_char t) @ CHR 0x22 # r'
     \<Longrightarrow> s = t \<and> r = r'"
proof (induction s arbitrary: t)
  case Nil
  then show ?case
    by (cases t) (use escape_char_hd in \<open>auto simp: eq_commute [of "CHR 0x22 # r"]\<close>)
next
  case (Cons c s)
  show ?case
  proof (cases t)
    case Nil
    with Cons.prems show ?thesis using escape_char_hd by auto
  next
    case (Cons d t')
    with Cons.prems have "escape_char c @ (concat (map escape_char s) @ CHR 0x22 # r)
        = escape_char d @ (concat (map escape_char t') @ CHR 0x22 # r')"
      by simp
    from escape_char_split [OF this] Cons.IH [of t'] Cons show ?thesis by simp
  qed
qed

lemma encode_basestring_ascii_split:
  "encode_basestring_ascii s @ r = encode_basestring_ascii t @ r' \<Longrightarrow> s = t \<and> r = r'"
  using escaped_split [of s r t r'] by (simp add: encode_basestring_ascii_def)

lemma join_Cons_concat:
  "join sep (map f (x # xs)) = f x @ concat (map (\<lambda>y. sep @ f y) xs)"
  by (induction xs arbitrary: x) simp_all

lemma tail_split:
  fixes f :: "'a \<Rightarrow> string"
  assumes item: "\<And>x y s s'. x \<in> set xs \<Longrightarrow> y \<in> set ys \<Longrightarrow> no_digit_ahead s \<Longrightarrow> no_digit_ahead s'
                   \<Longrightarrow> f x @ s = f y @ s' \<Longrightarrow> R x y \<and> s = s'"
    and c: "c \<noteq> CHR '',''" "\<not> is_digit c"
    and eq: "concat (map (\<lambda>x. '', '' @ f x) xs) @ c # r = concat (map (\<lambda>x. '', '' @ f x) ys) @ c # r'"
  shows "list_all2 R xs ys \<and> r = r'"
  using item eq
proof (induction xs arbitrary: ys)
  case Nil
  then show ?case using c by (cases ys) auto
next
  case (Cons x xs)
  show ?case
  proof (cases ys)
    case Nil
    with Cons.prems(2) c show ?thesis by auto
  next
    case ys: (Cons y ys')
    let ?T = "\<lambda>zs q. concat (map (\<lambda>x. '', '' @ f x) zs) @ c # q"
    have nd: "no_digit_ahead (?T zs q)" for zs q
      using c by (cases zs) (simp_all add: is_digit_def)
    from Cons.prems(2) ys have e: "f x @ ?T xs r = f y @ ?T ys' r'"
      by simp
    have "R x y \<and> ?T xs r = ?T ys' r'"
      by (rule Cons.prems(1) [OF _ _ nd nd e]) (simp_all add: ys)
    moreover from this have "list_all2 R xs ys' \<and> r = r'"
      by (intro Cons.IH Cons.prems(1)) (auto simp: ys)
    ultimately show ?thesis by (simp add: ys)
  qed
qed

lemma seq_split:
  fixes f :: "'a \<Rightarrow> string"
  assumes item: "\<And>x y s s'. x \<in> set xs \<Longrightarrow> y \<in> set ys \<Longrightarrow> no_digit_ahead s \<Longrightarrow> no_digit_ahead s'
                   \<Longrightarrow> f x @ s = f y @ s' \<Longrightarrow> R x y \<and> s = s'"
    and hd: "\<And>x s s'. x \<in> set xs \<union> set ys \<Longrightarrow> f x @ s \<noteq> c # s'"
    and c: "c \<noteq> CHR '',''" "\<not> is_digit c"
    and eq: "join '', '' (map f xs) @ c # r = join '', '' (map f ys) @ c # r'"
  shows "list_all2 R xs ys \<and> r = r'"
proof (cases xs)
  case Nil
  show ?thesis
  proof (cases ys)
    case ys: Nil
    with Nil eq show ?thesis by simp
  next
    case ys: (Cons y ys')
    from eq have "f y @ (concat (map (\<lambda>x. '', '' @ f x) ys') @ c # r') = c # r"
      unfolding ys Nil join_Cons_concat by simp
    with hd [of y] ys show ?thesis by auto
  qed
next
  case xs: (Cons x xs')
  show ?thesis
  proof (cases ys)
    case Nil
    from eq have "f x @ (concat (map (\<lambda>x. '', '' @ f x) xs') @ c # r) = c # r'"
      unfolding xs Nil join_Cons_concat by simp
    with hd [of x] xs show ?thesis by auto
  next
    case ys: (Cons y ys')
    let ?T = "\<lambda>zs q. concat (map (\<lambda>x. '', '' @ f x) zs) @ c # q"
    have nd: "no_digit_ahead (?T zs q)" for zs q
      using c by (cases zs) (simp_all add: is_digit_def)
    from eq have e: "f x @ ?T xs' r = f y @ ?T ys' r'"
      unfolding xs ys join_Cons_concat by simp
    have "R x y \<and> ?T xs' r = ?T ys' r'"
      by (rule item [OF _ _ nd nd e]) (simp_all add: xs ys)
    moreover from this have "list_all2 R xs' ys' \<and> r = r'"
      by (intro tail_split [where f = f and c = c] item c) (auto simp: xs ys)
    ultimately show ?thesis by (simp add: xs ys)
  qed
qed

lemma dumps_Cons:
  "\<exists>a as. dumps v = a # as \<and>
     (case v of JNull \<Rightarrow> a = CHR ''n''
      | JBool b \<Rightarrow> a = (if b then CHR ''t'' else CHR ''f'')
      | JInt i \<Rightarrow> a = CHR ''-'' \<or> is_digit a
      | JStr s \<Rightarrow> a = CHR 0x22
      | JArr xs \<Rightarrow> a = CHR ''[''
      | JObj kvs \<Rightarrow> a = CHR ''{'')"
  using int_repr_hd by (cases v) (auto simp: encode_basestring_ascii_def)

lemma digit_chars [simp]:
  "\<not> is_digit CHR ''n''" "\<not> is_digit CHR ''t''" "\<not> is_digit CHR ''f''"
  "\<not> is_digit CHR 0x22" "\<not> is_digit CHR ''[''" "\<not> is_digit CHR ''{''"
  "\<not> is_digit CHR '']''" "\<not> is_digit CHR ''}''" "\<not> is_digit CHR '',''"
  "\<not> is_digit CHR ''-''"
  by (simp_all add: is_digit_def)

lemma same_head:
  assumes "dumps v @ r = dumps w @ r'"
  obtains a as bs where "dumps v = a # as" "dumps w = a # bs"
proof -
  obtain a as where a: "dumps v = a # as" using dumps_Cons by blast
  obtain b bs where b: "dumps w = b # bs" using dumps_Cons by blast
  from assms a b have "a = b" by simp
  with a b that show ?thesis by blast
qed

lemma dumps_heads:
  "dumps v = a # as \<Longrightarrow> dumps w = a # bs \<Longrightarrow>
    (case v of JNull \<Rightarrow> w = JNull
      | JBool b \<Rightarrow> (\<exists>b'. w = JBool b')
      | JInt i \<Rightarrow> (\<exists>j. w = JInt j)
      | JStr s \<Rightarrow> (\<exists>t. w = JStr t)
      | JArr xs \<Rightarrow> (\<exists>ys. w = JArr ys)
      | JObj kvs \<Rightarrow> (\<exists>kws. w = JObj kws))"
  using dumps_Cons [of v] dumps_Cons [of w]
  by (cases v; cases w) (auto split: if_splits)

lemma dumps_not_closing:
  "dumps v @ s \<noteq> CHR '']'' # s'" "dumps v @ s \<noteq> CHR ''}'' # s'"
  using dumps_Cons [of v] by (cases v; auto split: if_splits)+

lemma obj_py_eq:
  assumes rel: "list_all2 (\<lambda>kv kw. fst kv = fst kw \<and> py_eq (snd kv) (snd kw))
                  (sort_key fst kvs) (sort_key fst kws)"
    and dist: "distinct (map fst kws)"
  shows "py_eq (JObj kvs) (JObj kws)"
proof -
  have len: "length kvs = length kws"
    using list_all2_lengthD [OF rel] by simp
  have "case map_of kws (fst kv) of None \<Rightarrow> False | Some w \<Rightarrow> py_eq (snd kv) w"
    if "kv \<in> set kvs" for kv
  proof -
    from that have "kv \<in> set (sort_key fst kvs)" by simp
    then obtain n where n: "n < length (sort_key fst kvs)" "sort_key fst kvs ! n = kv"
      unfolding in_set_conv_nth by blast
    define kw where "kw = sort_key fst kws ! n"
    from n list_all2_nthD [OF rel n(1)]
    have r: "fst kv = fst kw" "py_eq (snd kv) (snd kw)" by (simp_all add: kw_def)
    have "kw \<in> set (sort_key fst kws)"
      unfolding kw_def using n(1) list_all2_lengthD [OF rel] by (intro nth_mem) simp
    then have "(fst kw, snd kw) \<in> set kws" by simp
    with dist have "map_of kws (fst kw) = Some (snd kw)" by simp
    with r show ?thesis by simp
  qed
  with len show ?thesis by (simp add: list_all_iff)
qed

lemma dumps_split:
  "wf_json w \<Longrightarrow> no_digit_ahead r \<Longrightarrow> no_digit_ahead r' \<Longrightarrow> dumps v @ r = dumps w @ r'
     \<Longrightarrow> py_eq v w \<and> r = r'"
proof (induction v arbitrary: w r r')
  case JNull
  from JNull.prems(4) obtain a as bs where "dumps JNull = a # as" "dumps w = a # bs"
    by (rule same_head)
  from dumps_heads [OF this] have "w = JNull" by simp
  with JNull.prems(4) show ?case by simp
next
  case (JBool b)
  from JBool.prems(4) obtain a as bs where "dumps (JBool b) = a # as" "dumps w = a # bs"
    by (rule same_head)
  from dumps_heads [OF this] obtain b' where "w = JBool b'" by auto
  with JBool.prems(4) show ?case by (cases b; cases b') simp_all
next
  case (JInt i)
  from JInt.prems(4) obtain a as bs where "dumps (JInt i) = a # as" "dumps w = a # bs"
    by (rule same_head)
  from dumps_heads [OF this] obtain j where "w = JInt j" by auto
  with JInt.prems int_repr_split [of r r' i j] show ?case by simp
next
  case (JStr s)
  from JStr.prems(4) obtain a as bs where "dumps (JStr s) = a # as" "dumps w = a # bs"
    by (rule same_head)
  from dumps_heads [OF this] obtain t where "w = JStr t" by auto
  with JStr.prems encode_basestring_ascii_split [of s r t r'] show ?case by simp
next
  case (JArr xs)
  from JArr.prems(4) obtain a as bs where "dumps (JArr xs) = a # as" "dumps w = a # bs"
    by (rule same_head)
  from dumps_heads [OF this] obtain ys where w: "w = JArr ys" by auto
  from JArr.prems(4) have eq: "join '', '' (map dumps xs) @ CHR '']'' # r
      = join '', '' (map dumps ys) @ CHR '']'' # r'"
    by (simp add: w)
  have "list_all2 py_eq xs ys \<and> r = r'"
  proof (rule seq_split [where f = dumps and c = "CHR '']''", OF _ _ _ _ eq])
    fix x y s s'
    assume "x \<in> set xs" "y \<in> set ys" "no_digit_ahead s" "no_digit_ahead s'"
      "dumps x @ s = dumps y @ s'"
    moreover from \<open>y \<in> set ys\<close> JArr.prems(1) have "wf_json y"
      by (simp add: w list_all_iff)
    ultimately show "py_eq x y \<and> s = s'" by (intro JArr.IH)
  qed (simp_all add: dumps_not_closing)
  then show ?case by (simp add: w)
next
  case (JObj kvs)
  from JObj.prems(4) obtain a as bs where "dumps (JObj kvs) = a # as" "dumps w = a # bs"
    by (rule same_head)
  from dumps_heads [OF this] obtain kws where w: "w = JObj kws" by auto
  let ?f = "\<lambda>kv. encode_basestring_ascii (fst kv) @ '': '' @ dumps (snd kv)"
  let ?R = "\<lambda>kv kw. fst kv = fst kw \<and> py_eq (snd kv) (snd kw)"
  from JObj.prems(4) have eq: "join '', '' (map ?f (sort_key fst kvs)) @ CHR ''}'' # r
      = join '', '' (map ?f (sort_key fst kws)) @ CHR ''}'' # r'"
    by (simp add: w)
  have "list_all2 ?R (sort_key fst kvs) (sort_key fst kws) \<and> r = r'"
  proof (rule seq_split [where f = ?f and c = "CHR ''}''", OF _ _ _ _ eq])
    fix x y s s'
    assume a: "x \<in> set (sort_key fst kvs)" "y \<in> set (sort_key fst kws)"
      "no_digit_ahead s" "no_digit_ahead s'" "?f x @ s = ?f y @ s'"
    from a(2) JObj.prems(1) have wf: "wf_json (snd y)"
      by (simp add: w list_all_iff)
    from a(5) have "encode_basestring_ascii (fst x) @ ('': '' @ dumps (snd x) @ s)
        = encode_basestring_ascii (fst y) @ ('': '' @ dumps (snd y) @ s')"
      by simp
    from encode_basestring_ascii_split [OF this]
    have k: "fst x = fst y" and e: "dumps (snd x) @ s = dumps (snd y) @ s'"
      by simp_all
    have "py_eq (snd x) (snd y) \<and> s = s'"
      using a(1) by (intro JObj.IH [of x "snd x"] wf a e) (cases x; simp)+
    with k show "?R x y \<and> s = s'" by simp
  qed (simp_all add: encode_basestring_ascii_def)
  moreover from JObj.prems(1) have "distinct (map fst kws)" by (simp add: w)
  ultimately show ?case using obj_py_eq [of kvs kws] by (simp add: w del: py_eq.simps)
qed

lemma dumps_inj: "wf_json w \<Longrightarrow> dumps v = dumps w \<Longrightarrow> py_eq v w"
  using dumps_split [of w "[]" "[]" v] by simp

section \<open>Hash of a record\<close>

lemma sorted_keys_app2_init:
  "sort_key fst [(''index'', i), (''timestamp'', ts), (''art_hash'', ah), (''owner'', ow),
      (''metadata'', md), (''previous_hash'', ph), (''nonce'', n)]
   = [(''art_hash'', ah), (''index'', i), (''metadata'', md), (''nonce'', n), (''owner'', ow),
      (''previous_hash'', ph), (''timestamp'', ts)]"
  by (simp add: less_eq_char_def)

lemma sorted_keys_app2:
  "sort_key fst [(''index'', i), (''timestamp'', ts), (''art_hash'', ah), (''owner'', ow),
      (''metadata'', md), (''previous_hash'', ph), (''nonce'', n), (''hash'', h)]
   = [(''art_hash'', ah), (''hash'', h), (''index'', i), (''metadata'', md), (''nonce'', n),
      (''owner'', ow), (''previous_hash'', ph), (''timestamp'', ts)]"
  by (simp add: less_eq_char_def)

text \<open>
  In app3.py the hash that \<open>__init__\<close> stores is the one \<open>compute_hash\<close> gives on the
  finished block: the \<open>hash\<close> member is popped before encoding.
\<close>

lemma hash_Block:
  "hash (Block sha256 i ts ah on pk sg md ph)
     = JStr (compute_hash sha256 (Block sha256 i ts ah on pk sg md ph))"
  by (simp add: Block_def compute_hash_def compute_hash_dict_def dict_of_def dict_pop_def)

text \<open>
  Claim C1. After construction \<open>compute_hash\<close> should give the stored hash again. In
  app2.py it does not: \<open>compute_hash\<close> encodes \<open>self.__dict__\<close> with the \<open>hash\<close> member
  that \<open>__init__\<close> has set meanwhile, so it digests another text than the one the stored
  hash came from; unless the two texts are a collision of the digest, the results differ.
  For the same reason \<open>is_chain_valid\<close> of app2.py is false on a chain whose record 1
  is a block as constructed, such as a new chain after one \<open>add_block\<close>.
\<close>

theorem app2_compute_hash_not_reproduced:
  assumes "b = Block2 sha256 i ts ah ow md ph"
    and "no_collision sha256 (dumps (JObj (dict_of2 b)))
           (dumps (JObj (dict_pop ''hash'' (dict_of2 b))))"
  shows "hash2 b = JStr (sha256 (dumps (JObj (dict_pop ''hash'' (dict_of2 b)))))
       \<and> compute_hash2 sha256 b = sha256 (dumps (JObj (dict_of2 b)))
       \<and> JStr (compute_hash2 sha256 b) \<noteq> hash2 b
       \<and> \<not> is_chain_valid2 sha256 \<lparr>chain2 = [g, b]\<rparr>"
proof -
  have h: "hash2 b = JStr (sha256 (dumps (JObj (dict_pop ''hash'' (dict_of2 b)))))"
    by (simp add: assms(1) Block2_def compute_hash_dict2_def dict_of2_def dict_pop_def)
  have c: "compute_hash2 sha256 b = sha256 (dumps (JObj (dict_of2 b)))"
    by (simp add: compute_hash2_def compute_hash_dict2_def)
  have "dumps (JObj (dict_of2 b)) \<noteq> dumps (JObj (dict_pop ''hash'' (dict_of2 b)))"
    by (simp add: dict_of2_def dict_pop_def sorted_keys_app2_init sorted_keys_app2
        encode_basestring_ascii_def escape_char_def)
  with assms(2) have d: "JStr (compute_hash2 sha256 b) \<noteq> hash2 b"
    by (auto simp: no_collision_def h c)
  then have "\<not> is_chain_valid2 sha256 \<lparr>chain2 = [g, b]\<rparr>"
    by (simp add: is_chain_valid2_def is_chain_valid_from2.simps [of _ _ "Suc 0"] Let_def
        eq_commute)
  with h c d show ?thesis by simp
qed

theorem app2_compute_hash_not_reproduced_witness:
  "add_block2 id ''t1'' (JStr ''abc123'') (JStr ''alice'') (JObj [(''title'', JStr ''Sunset'')])
       (Blockchain2 id ''t0'')
     = Inr (example_block2, \<lparr>chain2 = chain2 (Blockchain2 id ''t0'') @ [example_block2]\<rparr>)
   \<and> no_collision id (dumps (JObj (dict_of2 example_block2)))
        (dumps (JObj (dict_pop ''hash'' (dict_of2 example_block2))))
   \<and> JStr (compute_hash2 id example_block2) \<noteq> hash2 example_block2
   \<and> \<not> is_chain_valid2 id \<lparr>chain2 = chain2 (Blockchain2 id ''t0'') @ [example_block2]\<rparr>"
proof -
  let ?g = "Block2 id (JInt 0) (JStr ''t0'') (JStr ''0'') (JStr ''Genesis'')
              (JObj [(''title'', JStr ''Genesis Block'')]) (JStr ''0'')"
  have b: "example_block2 = Block2 id (JInt 1) (JStr ''t1'') (JStr ''abc123'') (JStr ''alice'')
             (JObj [(''title'', JStr ''Sunset'')]) (hash2 ?g)"
    by (simp add: example_block2_def chain2_Blockchain2)
  have n: "no_collision id (dumps (JObj (dict_of2 example_block2)))
             (dumps (JObj (dict_pop ''hash'' (dict_of2 example_block2))))"
    by (simp add: no_collision_def)
  have a: "add_block2 id ''t1'' (JStr ''abc123'') (JStr ''alice'')
               (JObj [(''title'', JStr ''Sunset'')]) (Blockchain2 id ''t0'')
             = Inr (example_block2,
                    \<lparr>chain2 = chain2 (Blockchain2 id ''t0'') @ [example_block2]\<rparr>)"
    by (simp add: add_block2_def example_block2_def chain2_Blockchain2 Blockchain2_def
        create_genesis_block2_def Let_def)
  have c: "chain2 (Blockchain2 id ''t0'') @ [example_block2] = [?g, example_block2]"
    by (simp add: chain2_Blockchain2)
  from app2_compute_hash_not_reproduced [OF b n, of ?g] a n
  show ?thesis unfolding c by blast
qed

section \<open>Validation\<close>

lemma is_chain_valid_from_iff:
  "is_chain_valid_from sha256 c i \<longleftrightarrow>
     (\<forall>j. i \<le> j \<and> j < length c \<longrightarrow>
        py_eq (hash (c ! j)) (JStr (compute_hash sha256 (c ! j)))
        \<and> py_eq (previous_hash (c ! j)) (hash (c ! (j - 1))))"
proof (induction sha256 c i rule: is_chain_valid_from.induct)
  case (1 sha256 c i)
  show ?case
  proof (cases "i < length c")
    case False
    then show ?thesis by (subst is_chain_valid_from.simps) auto
  next
    case True
    let ?ok = "\<lambda>j. py_eq (hash (c ! j)) (JStr (compute_hash sha256 (c ! j)))
        \<and> py_eq (previous_hash (c ! j)) (hash (c ! (j - 1)))"
    show ?thesis
    proof (cases "?ok i")
      case False
      with True show ?thesis
        by (subst is_chain_valid_from.simps) (auto simp: Let_def)
    next
      case ok: True
      have "is_chain_valid_from sha256 c i = is_chain_valid_from sha256 c (i + 1)"
        using True ok by (subst is_chain_valid_from.simps) (simp add: Let_def)
      also have "\<dots> = (\<forall>j. i + 1 \<le> j \<and> j < length c \<longrightarrow> ?ok j)"
        using "1.IH" [OF True refl refl] ok by simp
      also have "\<dots> = (\<forall>j. i \<le> j \<and> j < length c \<longrightarrow> ?ok j)"
      proof -
        have "\<And>j. i \<le> j \<longleftrightarrow> j = i \<or> i + 1 \<le> j" by auto
        with ok show ?thesis by metis
      qed
      finally show ?thesis .
    qed
  qed
qed

text \<open>Every chain that the constructor and \<open>add_block\<close> build is valid (app3.py).\<close>

lemma built_invariant:
  "built sha256 self \<Longrightarrow>
     chain self \<noteq> []
     \<and> (\<forall>b \<in> set (chain self). hash b = JStr (compute_hash sha256 b))
     \<and> is_chain_valid sha256 self"
proof (induction rule: built.induct)
  case (built_new now)
  show ?case
    by (simp add: chain_Blockchain hash_Block is_chain_valid_def is_chain_valid_from_iff)
next
  case (built_add self now ah on pk sg md new_block self')
  then have ne: "chain self \<noteq> []"
    and hashed: "\<forall>b \<in> set (chain self). hash b = JStr (compute_hash sha256 b)"
    and valid: "is_chain_valid sha256 self"
    by simp_all
  define b where "b = Block sha256 (JInt (int (length (chain self)))) (JStr now) ah on pk sg md
                        (hash (last (chain self)))"
  from built_add.hyps(2) ne have c': "chain self' = chain self @ [b]"
    by (auto simp: add_block_def b_def Let_def)
  have hb: "hash b = JStr (compute_hash sha256 b)"
    unfolding b_def by (rule hash_Block)
  have pb: "previous_hash b = hash (last (chain self))"
    by (simp add: b_def Block_def)
  have lastc: "last (chain self) = chain self ! (length (chain self) - 1)"
    using ne by (rule last_conv_nth)
  from ne hashed have "hash (last (chain self)) = JStr (compute_hash sha256 (last (chain self)))"
    by simp
  then have refl: "py_eq (hash (last (chain self))) (hash (last (chain self)))"
    by simp
  have "is_chain_valid sha256 self'"
    unfolding is_chain_valid_def is_chain_valid_from_iff
  proof (intro allI impI)
    fix j
    assume j: "1 \<le> j \<and> j < length (chain self')"
    then consider "j < length (chain self)" | "j = length (chain self)"
      using c' by fastforce
    then show "py_eq (hash (chain self' ! j)) (JStr (compute_hash sha256 (chain self' ! j)))
        \<and> py_eq (previous_hash (chain self' ! j)) (hash (chain self' ! (j - 1)))"
    proof cases
      case 1
      then have "j - 1 < length (chain self)" by simp
      with 1 j valid show ?thesis
        by (simp add: is_chain_valid_def is_chain_valid_from_iff c' nth_append)
    next
      case 2
      with j ne refl show ?thesis
        by (simp add: c' nth_append hb pb lastc)
    qed
  qed
  with hashed hb show ?case by (simp add: c')
qed

section \<open>Loading malformed records\<close>

lemma load_block_missing:
  assumes "k \<in> set required_keys" and "map_of kvs k = None"
  shows "isl (load_block sha256 (JObj kvs))"
  using assms unfolding load_block_def required_keys_def bind_result_def Let_def
  by (auto split: option.splits sum.splits)

lemma load_block2_missing:
  assumes "k \<in> set required_keys2" and "map_of kvs k = None"
  shows "isl (load_block2 sha256 (JObj kvs))"
  using assms unfolding load_block2_def required_keys2_def bind_result_def Let_def
  by (auto split: option.splits sum.splits)

lemma load_loop_fails:
  assumes "item \<in> set items" and "isl (load_block sha256 item)"
  shows "isl (load_loop sha256 items acc)"
  using assms by (induction items arbitrary: acc) (auto split: sum.splits)

lemma load_loop2_fails:
  assumes "item \<in> set items" and "isl (load_block2 sha256 item)"
  shows "isl (load_loop2 sha256 items acc)"
  using assms by (induction items arbitrary: acc) (auto split: sum.splits)

lemma load_loop_length:
  "load_loop sha256 items acc = Inr bc
     \<Longrightarrow> length (chain bc) = length (chain acc) + length items"
  by (induction items arbitrary: acc) (auto split: sum.splits)

lemma load_loop2_length:
  "load_loop2 sha256 items acc = Inr bc
     \<Longrightarrow> length (chain2 bc) = length (chain2 acc) + length items"
  by (induction items arbitrary: acc) (auto split: sum.splits)

text \<open>
  Claim C9. When the file holds a list and one of its objects lacks a key that \<open>load\<close>
  reads with \<open>block_data[key]\<close> (index, timestamp, art_hash, the owner, metadata,
  previous_hash or hash), \<open>load\<close> raises: no chain is returned. A chain that \<open>load\<close>
  does return has one record for every element of the list. The same holds in app2.py.
\<close>

theorem load_fails_on_missing_field:
  "(JObj kvs \<in> set items \<and> k \<in> set required_keys \<and> map_of kvs k = None
      \<longrightarrow> isl (load sha256 now (Some (JArr items))))
   \<and> (load sha256 now (Some (JArr items)) = Inr bc \<longrightarrow> length (chain bc) = length items)
   \<and> (JObj kvs \<in> set items \<and> k \<in> set required_keys2 \<and> map_of kvs k = None
      \<longrightarrow> isl (load2 sha256 now (Some (JArr items))))
   \<and> (load2 sha256 now (Some (JArr items)) = Inr bc2
      \<longrightarrow> length (chain2 bc2) = length items)"
  by (auto simp: load_def load2_def dest: load_loop_length load_loop2_length
      intro!: load_loop_fails load_loop2_fails load_block_missing load_block2_missing)

theorem load_fails_on_missing_field_witness:
  "JObj example_record_no_metadata \<in> set example_items
   \<and> ''metadata'' \<in> set required_keys \<and> ''metadata'' \<in> set required_keys2
   \<and> map_of example_record_no_metadata ''metadata'' = None
   \<and> isl (load id ''t'' (Some (JArr example_items)))
   \<and> isl (load2 id ''t'' (Some (JArr example_items)))
   \<and> load id ''t'' (Some (JArr [])) = Inr \<lparr>chain = []\<rparr>
   \<and> length (chain \<lparr>chain = []\<rparr>) = length ([] :: json list)
   \<and> load2 id ''t'' (Some (JArr [])) = Inr \<lparr>chain2 = []\<rparr>
   \<and> length (chain2 \<lparr>chain2 = []\<rparr>) = length ([] :: json list)"
proof -
  have h1: "JObj example_record_no_metadata \<in> set example_items"
    by (simp add: example_items_def)
  have h2: "''metadata'' \<in> set required_keys" "''metadata'' \<in> set required_keys2"
    by (simp_all add: required_keys_def required_keys2_def)
  have h3: "map_of example_record_no_metadata ''metadata'' = None"
    by (simp add: example_record_no_metadata_def)
  have h4: "load id ''t'' (Some (JArr [])) = Inr \<lparr>chain = []\<rparr>"
    by (simp add: load_def)
  have h5: "load2 id ''t'' (Some (JArr [])) = Inr \<lparr>chain2 = []\<rparr>"
    by (simp add: load2_def)
  note t = load_fails_on_missing_field
    [of example_record_no_metadata example_items "''metadata''" id "''t''"]
  note e = load_fails_on_missing_field [of _ "[]" _ id "''t''" "\<lparr>chain = []\<rparr>" "\<lparr>chain2 = []\<rparr>"]
  have "isl (load id ''t'' (Some (JArr example_items)))"
    using t h1 h2 h3 by blast
  moreover have "isl (load2 id ''t'' (Some (JArr example_items)))"
    using t h1 h2 h3 by blast
  moreover have "length (chain \<lparr>chain = []\<rparr>) = length ([] :: json list)"
    using e h4 by blast
  moreover have "length (chain2 \<lparr>chain2 = []\<rparr>) = length ([] :: json list)"
    using e h5 by blast
  ultimately show ?thesis using h1 h2 h3 h4 h5 by blast
qed

section \<open>Signature check\<close>

text \<open>
  Claim C7. \<open>verify_signature\<close> always returns a boolean: it is true exactly when the
  signature decodes, the message encodes and the library's check returns true. When
  decoding raises (malformed base64), when the check raises (a key of the wrong curve, a
  signature that does not verify) or returns false, the result is false; no exception
  leaves the function.
\<close>

theorem verify_signature_never_raises:
  "verify_signature b64decode encode verify vk d sg
     = (\<exists>sig_bytes msg_bytes. b64decode sg = Inr sig_bytes \<and> encode d = Inr msg_bytes
            \<and> verify vk sig_bytes msg_bytes = Inr True)
   \<and> verify_signature (\<lambda>s. Inl e) encode verify vk d sg = False
   \<and> verify_signature b64decode (\<lambda>m. Inl e) verify vk d sg = False
   \<and> verify_signature b64decode encode (\<lambda>k s m. Inl e) vk d sg = False
   \<and> verify_signature b64decode encode (\<lambda>k s m. Inr False) vk d sg = False"
  by (auto simp: verify_signature_def split: sum.splits)

section \<open>Validation over Python values\<close>

lemma pyeq_PStr_right [simp]: "pyeq v (PStr s) \<longleftrightarrow> v = PStr s"
  by (cases v) auto

lemma is_chain_valid_from_py_unfold:
  "is_chain_valid_from_py sha256 c i =
     (if i < length c then
        bind_result (record_ok_py sha256 c i) (\<lambda>ok.
          if ok then is_chain_valid_from_py sha256 c (i + 1) else Inr False)
      else Inr True)"
  by (subst is_chain_valid_from_py.simps)
     (auto simp: record_ok_py_def bind_result_def Let_def split: sum.splits)

lemma is_chain_valid_from_py_skip:
  assumes "k \<le> i" and "i \<le> length c"
    and "\<And>j. k \<le> j \<Longrightarrow> j < i \<Longrightarrow> record_ok_py sha256 c j = Inr True"
  shows "is_chain_valid_from_py sha256 c k = is_chain_valid_from_py sha256 c i"
  using assms
proof (induction "i - k" arbitrary: k)
  case 0
  then show ?case by simp
next
  case (Suc n)
  then have k: "k < i" "k < length c" by auto
  have "is_chain_valid_from_py sha256 c k = is_chain_valid_from_py sha256 c (k + 1)"
    using k Suc.prems(3) [of k] by (subst is_chain_valid_from_py_unfold) simp
  also have "\<dots> = is_chain_valid_from_py sha256 c i"
    using Suc.hyps(2) k Suc.prems by (intro Suc.hyps(1)) auto
  finally show ?case .
qed

lemma is_chain_valid_from_py_True:
  "is_chain_valid_from_py sha256 c i = Inr True \<longleftrightarrow>
     (\<forall>j. i \<le> j \<and> j < length c \<longrightarrow> record_ok_py sha256 c j = Inr True)"
proof (induction sha256 c i rule: is_chain_valid_from_py.induct)
  case (1 sha256 c i)
  show ?case
  proof (cases "i < length c")
    case False
    then show ?thesis by (subst is_chain_valid_from_py_unfold) auto
  next
    case True
    show ?thesis
    proof (cases "record_ok_py sha256 c i = Inr True")
      case False
      then have "is_chain_valid_from_py sha256 c i \<noteq> Inr True"
        using True
        by (subst is_chain_valid_from_py_unfold)
           (auto simp: bind_result_def split: sum.splits)
      with False True show ?thesis by auto
    next
      case ok: True
      then obtain h where h: "compute_hash_py sha256 (c ! i) = Inr h"
        "pyeq (hash_py (c ! i)) (PStr h)" "pyeq (previous_hash_py (c ! i)) (hash_py (c ! (i - 1)))"
        by (auto simp: record_ok_py_def bind_result_def split: sum.splits)
      have "is_chain_valid_from_py sha256 c i = is_chain_valid_from_py sha256 c (i + 1)"
        using True ok by (subst is_chain_valid_from_py_unfold) simp
      also have "\<dots> = Inr True \<longleftrightarrow>
          (\<forall>j. i + 1 \<le> j \<and> j < length c \<longrightarrow> record_ok_py sha256 c j = Inr True)"
        by (rule "1.IH" [OF True refl refl]) (use h in simp_all)
      also have "\<dots> = (\<forall>j. i \<le> j \<and> j < length c \<longrightarrow> record_ok_py sha256 c j = Inr True)"
      proof -
        have "\<And>j. i \<le> j \<longleftrightarrow> j = i \<or> i + 1 \<le> j" by auto
        with ok show ?thesis by metis
      qed
      finally show ?thesis .
    qed
  qed
qed

lemma record_ok_py_update:
  assumes "j \<noteq> i" and "j - 1 \<noteq> i"
  shows "record_ok_py sha256 (c[i := b]) j = record_ok_py sha256 c j"
  using assms by (simp add: record_ok_py_def)

text \<open>The loop on a chain with record \<open>i\<close> replaced, when the chain was valid before.\<close>

lemma is_chain_valid_py_update:
  assumes "0 < i" and "i < length (chain_py self)"
    and "is_chain_valid_py sha256 self = Inr True"
  shows "is_chain_valid_py sha256 (self\<lparr>chain_py := (chain_py self)[i := b]\<rparr>)
           = is_chain_valid_from_py sha256 ((chain_py self)[i := b]) i"
proof -
  have ok: "record_ok_py sha256 (chain_py self) j = Inr True" if "1 \<le> j" "j < i" for j
    using assms that by (simp add: is_chain_valid_py_def is_chain_valid_from_py_True)
  have "is_chain_valid_from_py sha256 ((chain_py self)[i := b]) 1
          = is_chain_valid_from_py sha256 ((chain_py self)[i := b]) i"
  proof (rule is_chain_valid_from_py_skip)
    fix j assume "1 \<le> j" "j < i"
    then show "record_ok_py sha256 ((chain_py self)[i := b]) j = Inr True"
      using ok [of j] by (simp add: record_ok_py_update)
  qed (use assms in auto)
  then show ?thesis by (simp add: is_chain_valid_py_def)
qed

lemma is_chain_valid_py_update_fails:
  assumes "0 < i" and "i < length (chain_py self)"
    and "is_chain_valid_py sha256 self = Inr True"
    and "record_ok_py sha256 ((chain_py self)[i := b]) i = Inr False"
  shows "is_chain_valid_py sha256 (self\<lparr>chain_py := (chain_py self)[i := b]\<rparr>) = Inr False"
  unfolding is_chain_valid_py_update [OF assms(1-3)]
  using assms(2,4) by (subst is_chain_valid_from_py_unfold) simp

lemma is_chain_valid_py_update_raises:
  assumes "0 < i" and "i < length (chain_py self)"
    and "is_chain_valid_py sha256 self = Inr True"
    and "record_ok_py sha256 ((chain_py self)[i := b]) i = Inl e"
  shows "is_chain_valid_py sha256 (self\<lparr>chain_py := (chain_py self)[i := b]\<rparr>) = Inl e"
  unfolding is_chain_valid_py_update [OF assms(1-3)]
  using assms(2,4) by (subst is_chain_valid_from_py_unfold) simp

section \<open>The text of a record\<close>

lemma all_attr:
  "(\<forall>a. a \<noteq> Hash \<longrightarrow> P a) \<longleftrightarrow>
     P Index \<and> P Timestamp \<and> P Art_hash \<and> P Owner_name \<and> P Owner_pubkey \<and> P Signature
     \<and> P Metadata \<and> P Previous_hash \<and> P Nonce"
proof
  assume "\<forall>a. a \<noteq> Hash \<longrightarrow> P a"
  then show "P Index \<and> P Timestamp \<and> P Art_hash \<and> P Owner_name \<and> P Owner_pubkey \<and> P Signature
     \<and> P Metadata \<and> P Previous_hash \<and> P Nonce" by simp
next
  assume r: "P Index \<and> P Timestamp \<and> P Art_hash \<and> P Owner_name \<and> P Owner_pubkey \<and> P Signature
     \<and> P Metadata \<and> P Previous_hash \<and> P Nonce"
  show "\<forall>a. a \<noteq> Hash \<longrightarrow> P a"
  proof (intro allI impI)
    fix a :: attr assume "a \<noteq> Hash"
    with r show "P a" by (cases a) simp_all
  qed
qed

lemma sorted_items_app3:
  "sort_items [(KStr ''index'', i), (KStr ''timestamp'', ts), (KStr ''art_hash'', ah),
      (KStr ''owner_name'', on), (KStr ''owner_pubkey'', pk), (KStr ''signature'', sg),
      (KStr ''metadata'', md), (KStr ''previous_hash'', ph), (KStr ''nonce'', n)]
   = Some [(KStr ''art_hash'', ah), (KStr ''index'', i), (KStr ''metadata'', md),
      (KStr ''nonce'', n), (KStr ''owner_name'', on), (KStr ''owner_pubkey'', pk),
      (KStr ''previous_hash'', ph), (KStr ''signature'', sg), (KStr ''timestamp'', ts)]"
  by (simp add: sort_items_def less_eq_char_def)

lemma hash_input_py_Some:
  assumes "\<forall>a. a \<noteq> Hash \<longrightarrow> pydumps (get_attr_py a b) = Some (t a)"
  shows "hash_input_py b = Some (record_text t)"
  using assms unfolding all_attr
  by (simp add: hash_input_py_def dict_of_py_def dict_pop_py_def sorted_items_app3
      record_text_def)

lemma hash_input_py_None:
  assumes "a \<noteq> Hash" and "pydumps (get_attr_py a b) = None"
  shows "hash_input_py b = None"
  using assms
  by (cases a)
     (simp_all add: hash_input_py_def dict_of_py_def dict_pop_py_def split: option.splits)

lemma hash_input_py_texts:
  assumes "hash_input_py b = Some s"
  obtains t where "\<forall>a. a \<noteq> Hash \<longrightarrow> pydumps (get_attr_py a b) = Some (t a)"
    and "s = record_text t"
proof -
  have "pydumps (get_attr_py a b) \<noteq> None" if "a \<noteq> Hash" for a
  proof
    assume "pydumps (get_attr_py a b) = None"
    from hash_input_py_None [OF that this] assms show False by simp
  qed
  then have t: "\<forall>a. a \<noteq> Hash \<longrightarrow> pydumps (get_attr_py a b) = Some (the (pydumps (get_attr_py a b)))"
    by simp
  from hash_input_py_Some [OF t] assms that [OF t] show ?thesis by simp
qed

lemma record_text_update:
  assumes "a \<noteq> Hash"
  shows "record_text (t(a := x)) = record_text t \<longleftrightarrow> x = t a"
  using assms by (cases a) (simp_all add: record_text_def)

lemma get_attr_py_set_attr_py:
  "get_attr_py a' (set_attr_py a v b) = (if a' = a then v else get_attr_py a' b)"
  by (cases a; cases a') simp_all

lemma hash_input_py_set_hash: "hash_input_py (set_attr_py Hash v b) = hash_input_py b"
  by (simp add: hash_input_py_def dict_of_py_def dict_pop_py_def)

lemma compute_hash_py_input:
  "compute_hash_py sha256 b =
     (case hash_input_py b of None \<Rightarrow> Inl TypeError | Some text \<Rightarrow> Inr (sha256 text))"
  by (simp add: compute_hash_py_def compute_hash_dict_py_def hash_input_py_def)

lemma hash_input_py_same_text:
  assumes "a \<noteq> Hash" and "pydumps v = pydumps (get_attr_py a b)"
  shows "hash_input_py (set_attr_py a v b) = hash_input_py b"
proof (cases "hash_input_py b")
  case None
  then obtain a' where a': "a' \<noteq> Hash" "pydumps (get_attr_py a' b) = None"
    using hash_input_py_Some [of b "\<lambda>a. the (pydumps (get_attr_py a b))"] by fastforce
  then have "pydumps (get_attr_py a' (set_attr_py a v b)) = None"
    using assms(2) by (cases "a' = a") (simp_all add: get_attr_py_set_attr_py)
  from hash_input_py_None [OF a'(1) this] None show ?thesis by simp
next
  case (Some s)
  then obtain t where t: "\<forall>a. a \<noteq> Hash \<longrightarrow> pydumps (get_attr_py a b) = Some (t a)"
    and s: "s = record_text t"
    by (rule hash_input_py_texts)
  have "\<forall>a'. a' \<noteq> Hash \<longrightarrow> pydumps (get_attr_py a' (set_attr_py a v b)) = Some (t a')"
    using t assms by (simp add: get_attr_py_set_attr_py)
  from hash_input_py_Some [OF this] Some s show ?thesis by simp
qed

lemma hash_input_py_other_text:
  assumes "a \<noteq> Hash" and "pydumps v = Some x" and "pydumps (get_attr_py a b) \<noteq> Some x"
    and "hash_input_py b = Some s"
  obtains s' where "hash_input_py (set_attr_py a v b) = Some s'" and "s' \<noteq> s"
proof -
  from assms(4) obtain t where t: "\<forall>a. a \<noteq> Hash \<longrightarrow> pydumps (get_attr_py a b) = Some (t a)"
    and s: "s = record_text t"
    by (rule hash_input_py_texts)
  have "\<forall>a'. a' \<noteq> Hash \<longrightarrow> pydumps (get_attr_py a' (set_attr_py a v b)) = Some ((t(a := x)) a')"
    using t assms(2) by (simp add: get_attr_py_set_attr_py)
  from hash_input_py_Some [OF this]
  have "hash_input_py (set_attr_py a v b) = Some (record_text (t(a := x)))" .
  moreover have "record_text (t(a := x)) \<noteq> s"
    using assms(1,3) t by (simp add: s record_text_update)
  ultimately show ?thesis using that by blast
qed

section \<open>Writing and reading back Python values\<close>

lemma those_map_Some:
  "(\<And>x. x \<in> set xs \<Longrightarrow> f x = Some (g x)) \<Longrightarrow> those (map f xs) = Some (map g xs)"
  by (induction xs) simp_all














lemma Block_py_compute_hash_py:
  "Block_py sha256 i ts ah on pk sg md ph =
     bind_result
       (compute_hash_py sha256
          \<lparr> index_py = i, timestamp_py = ts, art_hash_py = ah, owner_name_py = on,
            owner_pubkey_py = pk, signature_py = sg, metadata_py = md,
            previous_hash_py = ph, nonce_py = PInt 0, hash_py = PNone \<rparr>)
       (\<lambda>h. Inr \<lparr> index_py = i, timestamp_py = ts, art_hash_py = ah, owner_name_py = on,
                  owner_pubkey_py = pk, signature_py = sg, metadata_py = md,
                  previous_hash_py = ph, nonce_py = PInt 0, hash_py = PStr h \<rparr>)"
  by (simp add: Block_py_def compute_hash_py_def compute_hash_dict_py_def dict_of_py_def
      dict_pop_py_def)












text \<open>A JSON document, taken as a Python value, has the text that \<open>dumps\<close> gives it.\<close>

lemma insort_key_map:
  "insort_key f (g x) (map g xs) = map g (insort_key (\<lambda>y. f (g y)) x xs)"
  by (induction xs) simp_all

lemma sort_key_map: "sort_key f (map g xs) = map g (sort_key (\<lambda>y. f (g y)) xs)"
  by (induction xs) (simp_all add: insort_key_map)

lemma pydumps_embed: "pydumps (embed d) = Some (dumps d)"
proof (induction d)
  case (JArr xs)
  then have "those (map pydumps (map embed xs)) = Some (map dumps xs)"
    unfolding map_map o_def by (intro those_map_Some) simp
  then show ?case by simp
next
  case (JObj kvs)
  let ?g = "\<lambda>kv. (KStr (fst kv), dumps (snd kv))"
  have "those (map (\<lambda>kv. map_option (Pair (fst kv)) (pydumps (snd kv)))
                 (map (\<lambda>kv. (KStr (fst kv), embed (snd kv))) kvs))
          = Some (map ?g kvs)"
    unfolding map_map o_def
  proof (rule those_map_Some)
    fix kv assume "kv \<in> set kvs"
    with JObj.IH [of kv "snd kv"] have "pydumps (embed (snd kv)) = Some (dumps (snd kv))"
      by (cases kv) auto
    then show "map_option (Pair (fst (KStr (fst kv), embed (snd kv))))
                 (pydumps (snd (KStr (fst kv), embed (snd kv)))) = Some (?g kv)"
      by simp
  qed
  moreover have "sort_items (map ?g kvs) = Some (map ?g (sort_key fst kvs))"
    by (simp add: sort_items_def list_all_iff sort_key_map)
  ultimately show ?case by (simp add: o_def)
qed simp_all

section \<open>Tampering\<close>

lemma record_ok_py_same:
  assumes "i < length c"
    and "compute_hash_py sha256 b = compute_hash_py sha256 (c ! i)"
    and "hash_py b = hash_py (c ! i)"
    and "previous_hash_py b = previous_hash_py (c ! i)"
  shows "record_ok_py sha256 (c[i := b]) j = record_ok_py sha256 c j"
  using assms by (simp add: record_ok_py_def nth_list_update)

lemma hash_py_set_attr_py: "a \<noteq> Hash \<Longrightarrow> hash_py (set_attr_py a v b) = hash_py b"
  by (cases a) simp_all

lemma previous_hash_py_set_attr_py:
  "a \<noteq> Previous_hash \<Longrightarrow> previous_hash_py (set_attr_py a v b) = previous_hash_py b"
  by (cases a) simp_all

lemma compute_hash_py_set_hash:
  "compute_hash_py sha256 (b\<lparr>hash_py := v\<rparr>) = compute_hash_py sha256 b"
  by (simp add: compute_hash_py_def compute_hash_dict_py_def dict_of_py_def dict_pop_py_def)

text \<open>An assignment that leaves the text of the record as it was goes unnoticed.\<close>

lemma is_chain_valid_py_same_text:
  assumes "i < length (chain_py self)"
    and "is_chain_valid_py sha256 self = Inr True"
    and "a \<noteq> Hash" and "a \<noteq> Previous_hash"
    and "pydumps v = pydumps (get_attr_py a (chain_py self ! i))"
  shows "is_chain_valid_py sha256
           (self\<lparr>chain_py := (chain_py self)[i := set_attr_py a v (chain_py self ! i)]\<rparr>)
         = Inr True"
proof -
  let ?c = "chain_py self"
  have "compute_hash_py sha256 (set_attr_py a v (?c ! i)) = compute_hash_py sha256 (?c ! i)"
    using hash_input_py_same_text [OF assms(3,5)] by (simp add: compute_hash_py_input)
  then have "record_ok_py sha256 (?c[i := set_attr_py a v (?c ! i)]) j = record_ok_py sha256 ?c j"
    for j
    using assms(1,3,4)
    by (intro record_ok_py_same)
       (simp_all add: hash_py_set_attr_py previous_hash_py_set_attr_py)
  with assms(2) show ?thesis
    by (simp add: is_chain_valid_py_def is_chain_valid_from_py_True)
qed

text \<open>The block that \<open>__init__\<close> builds from encodable values, and the chain of the examples.\<close>

lemma Block_py_built:
  assumes "pydumps i \<noteq> None" "pydumps ts \<noteq> None" "pydumps ah \<noteq> None" "pydumps on \<noteq> None"
    "pydumps pk \<noteq> None" "pydumps sg \<noteq> None" "pydumps md \<noteq> None" "pydumps ph \<noteq> None"
  obtains t where
    "Block_py sha256 i ts ah on pk sg md ph
       = Inr \<lparr> index_py = i, timestamp_py = ts, art_hash_py = ah, owner_name_py = on,
               owner_pubkey_py = pk, signature_py = sg, metadata_py = md,
               previous_hash_py = ph, nonce_py = PInt 0,
               hash_py = PStr (sha256 (record_text t)) \<rparr>"
    and "hash_input_py \<lparr> index_py = i, timestamp_py = ts, art_hash_py = ah, owner_name_py = on,
               owner_pubkey_py = pk, signature_py = sg, metadata_py = md,
               previous_hash_py = ph, nonce_py = PInt 0,
               hash_py = PStr (sha256 (record_text t)) \<rparr> = Some (record_text t)"
proof -
  let ?b = "\<lambda>h. \<lparr> index_py = i, timestamp_py = ts, art_hash_py = ah, owner_name_py = on,
            owner_pubkey_py = pk, signature_py = sg, metadata_py = md,
            previous_hash_py = ph, nonce_py = PInt 0, hash_py = h \<rparr>"
  define t where "t = (\<lambda>a. the (pydumps (get_attr_py a (?b PNone))))"
  have e: "\<forall>a. a \<noteq> Hash \<longrightarrow> pydumps (get_attr_py a (?b h)) = Some (t a)" for h
    unfolding all_attr t_def using assms by simp
  have "hash_input_py (?b h) = Some (record_text t)" for h
    by (rule hash_input_py_Some [OF e])
  then show ?thesis
    using that [of t] by (simp add: Block_py_compute_hash_py compute_hash_py_input)
qed

lemma record_text_Cons: "record_text t = CHR ''{'' # tl (record_text t)"
  by (simp add: record_text_def)

lemma minted_chain_py_built:
  assumes "pydumps md \<noteq> None"
  obtains t0 t1 where
    "chain_py (minted_chain_py md) =
       [\<lparr> index_py = PInt 0, timestamp_py = PStr ''t0'', art_hash_py = PStr ''0'',
          owner_name_py = PStr ''Genesis'', owner_pubkey_py = PNone, signature_py = PNone,
          metadata_py = PDict [(KStr ''title'', PStr ''Genesis Block'')],
          previous_hash_py = PStr ''0'', nonce_py = PInt 0, hash_py = PStr (record_text t0) \<rparr>,
        \<lparr> index_py = PInt 1, timestamp_py = PStr ''t1'', art_hash_py = PStr ''abc123'',
          owner_name_py = PStr ''alice'', owner_pubkey_py = PNone, signature_py = PNone,
          metadata_py = md, previous_hash_py = PStr (record_text t0), nonce_py = PInt 0,
          hash_py = PStr (record_text t1) \<rparr>]"
    and "hash_input_py (chain_py (minted_chain_py md) ! 1) = Some (record_text t1)"
proof -
  have g: "pydumps (PDict [(KStr ''title'', PStr ''Genesis Block'')]) \<noteq> None"
    by (simp add: sort_items_def)
  obtain t0 where t0:
    "Block_py id (PInt 0) (PStr ''t0'') (PStr ''0'') (PStr ''Genesis'') PNone PNone
        (PDict [(KStr ''title'', PStr ''Genesis Block'')]) (PStr ''0'')
       = Inr \<lparr> index_py = PInt 0, timestamp_py = PStr ''t0'', art_hash_py = PStr ''0'',
          owner_name_py = PStr ''Genesis'', owner_pubkey_py = PNone, signature_py = PNone,
          metadata_py = PDict [(KStr ''title'', PStr ''Genesis Block'')],
          previous_hash_py = PStr ''0'', nonce_py = PInt 0,
          hash_py = PStr (id (record_text t0)) \<rparr>"
    by (rule Block_py_built [of "PInt 0" "PStr ''t0''" "PStr ''0''" "PStr ''Genesis''" PNone PNone
          "PDict [(KStr ''title'', PStr ''Genesis Block'')]" "PStr ''0''" id, OF _ _ _ _ _ _ g])
       simp_all
  obtain t1 where t1:
    "Block_py id (PInt 1) (PStr ''t1'') (PStr ''abc123'') (PStr ''alice'') PNone PNone md
        (PStr (record_text t0))
       = Inr \<lparr> index_py = PInt 1, timestamp_py = PStr ''t1'', art_hash_py = PStr ''abc123'',
          owner_name_py = PStr ''alice'', owner_pubkey_py = PNone, signature_py = PNone,
          metadata_py = md, previous_hash_py = PStr (record_text t0), nonce_py = PInt 0,
          hash_py = PStr (id (record_text t1)) \<rparr>"
    "hash_input_py \<lparr> index_py = PInt 1, timestamp_py = PStr ''t1'', art_hash_py = PStr ''abc123'',
          owner_name_py = PStr ''alice'', owner_pubkey_py = PNone, signature_py = PNone,
          metadata_py = md, previous_hash_py = PStr (record_text t0), nonce_py = PInt 0,
          hash_py = PStr (id (record_text t1)) \<rparr> = Some (record_text t1)"
    by (rule Block_py_built [of "PInt 1" "PStr ''t1''" "PStr ''abc123''" "PStr ''alice''" PNone
          PNone md "PStr (record_text t0)" id, OF _ _ _ _ _ _ assms])
       simp_all
  show ?thesis
    by (rule that [of t0 t1])
       (use t0 t1 in \<open>simp_all add: minted_chain_py_def Blockchain_py_def
          create_genesis_block_py_def add_block_py_def\<close>)
qed

lemma minted_chain_py_valid:
  assumes "pydumps md \<noteq> None"
  shows "is_chain_valid_py id (minted_chain_py md) = Inr True"
proof -
  from assms obtain t0 t1 where c:
    "chain_py (minted_chain_py md) =
       [\<lparr> index_py = PInt 0, timestamp_py = PStr ''t0'', art_hash_py = PStr ''0'',
          owner_name_py = PStr ''Genesis'', owner_pubkey_py = PNone, signature_py = PNone,
          metadata_py = PDict [(KStr ''title'', PStr ''Genesis Block'')],
          previous_hash_py = PStr ''0'', nonce_py = PInt 0, hash_py = PStr (record_text t0) \<rparr>,
        \<lparr> index_py = PInt 1, timestamp_py = PStr ''t1'', art_hash_py = PStr ''abc123'',
          owner_name_py = PStr ''alice'', owner_pubkey_py = PNone, signature_py = PNone,
          metadata_py = md, previous_hash_py = PStr (record_text t0), nonce_py = PInt 0,
          hash_py = PStr (record_text t1) \<rparr>]"
    and h: "hash_input_py (chain_py (minted_chain_py md) ! 1) = Some (record_text t1)"
    by (rule minted_chain_py_built)
  have ok: "record_ok_py id (chain_py (minted_chain_py md)) 1 = Inr True"
    using h by (simp add: record_ok_py_def compute_hash_py_input) (simp add: c)
  show ?thesis
    unfolding is_chain_valid_py_def is_chain_valid_from_py_True
  proof (intro allI impI)
    fix j
    assume "1 \<le> j \<and> j < length (chain_py (minted_chain_py md))"
    then have "j = 1" by (simp add: c)
    with ok show "record_ok_py id (chain_py (minted_chain_py md)) j = Inr True"
      by simp
  qed
qed

lemma example_metadata_texts:
  "pydumps example_list_metadata \<noteq> None"
  "pydumps example_tuple_metadata = pydumps example_list_metadata"
  by (simp_all add: example_list_metadata_def example_tuple_metadata_def sort_items_def
      less_eq_char_def)

lemma Block_py_result:
  assumes "Block_py sha256 i ts ah on pk sg md ph = Inr b"
  shows "\<exists>h. hash_py b = PStr h \<and> compute_hash_py sha256 b = Inr h"
    and "previous_hash_py b = ph"
proof -
  let ?b0 = "\<lparr> index_py = i, timestamp_py = ts, art_hash_py = ah, owner_name_py = on,
            owner_pubkey_py = pk, signature_py = sg, metadata_py = md,
            previous_hash_py = ph, nonce_py = PInt 0, hash_py = PNone \<rparr>"
  from assms obtain h where h: "compute_hash_py sha256 ?b0 = Inr h" "b = ?b0\<lparr>hash_py := PStr h\<rparr>"
    by (auto simp: Block_py_compute_hash_py bind_result_def split: sum.splits)
  from h(1) have "compute_hash_py sha256 b = Inr h"
    unfolding h(2) by (simp only: compute_hash_py_set_hash)
  with h(2) show "\<exists>h. hash_py b = PStr h \<and> compute_hash_py sha256 b = Inr h" by simp
  from h(2) show "previous_hash_py b = ph" by simp
qed

text \<open>Every chain that the constructor and \<open>add_block\<close> build validates.\<close>

lemma built_py_invariant:
  "built_py sha256 self \<Longrightarrow>
     chain_py self \<noteq> []
     \<and> (\<forall>b \<in> set (chain_py self). \<exists>h. hash_py b = PStr h \<and> compute_hash_py sha256 b = Inr h)
     \<and> is_chain_valid_py sha256 self = Inr True"
proof (induction rule: built_py.induct)
  case (built_py_new now self)
  then obtain g where g: "Block_py sha256 (PInt 0) (PStr now) (PStr ''0'') (PStr ''Genesis'')
      PNone PNone (PDict [(KStr ''title'', PStr ''Genesis Block'')]) (PStr ''0'') = Inr g"
    "chain_py self = [g]"
    by (auto simp: Blockchain_py_def create_genesis_block_py_def bind_result_def
        split: sum.splits)
  from Block_py_result(1) [OF g(1)] g(2) show ?case
    by (simp add: is_chain_valid_py_def is_chain_valid_from_py_True)
next
  case (built_py_add self now ah on pk sg md new_block self')
  then have ne: "chain_py self \<noteq> []"
    and hashed: "\<forall>b \<in> set (chain_py self).
        \<exists>h. hash_py b = PStr h \<and> compute_hash_py sha256 b = Inr h"
    and valid: "is_chain_valid_py sha256 self = Inr True"
    by simp_all
  from built_py_add.hyps(2) ne have b:
    "Block_py sha256 (PInt (int (length (chain_py self)))) (PStr now) ah on pk sg md
       (hash_py (last (chain_py self))) = Inr new_block"
    and c': "chain_py self' = chain_py self @ [new_block]"
    by (auto simp: add_block_py_def Let_def bind_result_def split: sum.splits)
  from Block_py_result [OF b] obtain h where h: "hash_py new_block = PStr h"
    "compute_hash_py sha256 new_block = Inr h"
    and p: "previous_hash_py new_block = hash_py (last (chain_py self))"
    by blast
  have lastc: "last (chain_py self) = chain_py self ! (length (chain_py self) - 1)"
    using ne by (rule last_conv_nth)
  from ne hashed obtain h' where "hash_py (last (chain_py self)) = PStr h'"
    using last_in_set by blast
  then have link: "pyeq (previous_hash_py new_block) (hash_py (last (chain_py self)))"
    by (simp add: p)
  have "is_chain_valid_py sha256 self' = Inr True"
    unfolding is_chain_valid_py_def is_chain_valid_from_py_True
  proof (intro allI impI)
    fix j
    assume j: "1 \<le> j \<and> j < length (chain_py self')"
    then consider "j < length (chain_py self)" | "j = length (chain_py self)"
      using c' by fastforce
    then show "record_ok_py sha256 (chain_py self') j = Inr True"
    proof cases
      case 1
      then have "j - 1 < length (chain_py self)" by simp
      moreover from 1 j valid have "record_ok_py sha256 (chain_py self) j = Inr True"
        by (simp add: is_chain_valid_py_def is_chain_valid_from_py_True)
      ultimately show ?thesis
        using 1 by (simp add: record_ok_py_def c' nth_append)
    next
      case 2
      with j ne link h show ?thesis
        by (simp add: record_ok_py_def c' nth_append lastc)
    qed
  qed
  with hashed h ne show ?case by (auto simp: c')
qed

lemma hash_input_py_set_attr_py_Some:
  assumes "a \<noteq> Hash" and "hash_input_py b \<noteq> None" and "pydumps v \<noteq> None"
  shows "hash_input_py (set_attr_py a v b) \<noteq> None"
proof -
  from assms(2) obtain s where "hash_input_py b = Some s" by auto
  then obtain t where t: "\<forall>a. a \<noteq> Hash \<longrightarrow> pydumps (get_attr_py a b) = Some (t a)"
    by (rule hash_input_py_texts)
  from assms(3) obtain x where x: "pydumps v = Some x" by auto
  have "\<forall>a'. a' \<noteq> Hash \<longrightarrow> pydumps (get_attr_py a' (set_attr_py a v b)) = Some ((t(a := x)) a')"
    using t x by (simp add: get_attr_py_set_attr_py)
  from hash_input_py_Some [OF this] show ?thesis by simp
qed

lemma example_chain_py_built:
  obtains t0 t1 where
    "chain_py example_chain_py =
       [\<lparr> index_py = PInt 0, timestamp_py = PStr ''t0'', art_hash_py = PStr ''0'',
          owner_name_py = PStr ''Genesis'', owner_pubkey_py = PNone, signature_py = PNone,
          metadata_py = PDict [(KStr ''title'', PStr ''Genesis Block'')],
          previous_hash_py = PStr ''0'', nonce_py = PInt 0, hash_py = PStr (record_text t0) \<rparr>,
        \<lparr> index_py = PInt 1, timestamp_py = PStr ''t1'', art_hash_py = PStr ''abc123'',
          owner_name_py = PStr ''alice'', owner_pubkey_py = PNone, signature_py = PNone,
          metadata_py = example_list_metadata, previous_hash_py = PStr (record_text t0),
          nonce_py = PInt 0, hash_py = PStr (record_text t1) \<rparr>]"
    and "hash_input_py (chain_py example_chain_py ! 1) = Some (record_text t1)"
  unfolding example_chain_py_def
  by (rule minted_chain_py_built [OF example_metadata_texts(1)])

text \<open>
  Claim C2, as the code has it. Take a chain on which \<open>is_chain_valid\<close> returns true
  (as it does on every chain built by the constructor and \<open>add_block\<close>) and a record
  \<open>i > 0\<close> of it. An assignment to an attribute of the record, the stored hash
  left as it was, makes \<open>is_chain_valid\<close> return false when the JSON text of the new
  value differs from the text of the old one, unless the old and the new text of the
  record are a collision of the digest; the texts differ whenever the two values are
  JSON documents that differ in Python's \<open>!=\<close>. It makes \<open>is_chain_valid\<close> raise
  TypeError when the new value has no JSON text. An assignment to \<open>hash\<close> itself of a
  value that differs from the stored hash makes it return false. An assignment that
  leaves the text as it was (to an attribute other than \<open>hash\<close> and \<open>previous_hash\<close>)
  goes unnoticed: \<open>is_chain_valid\<close> still returns true. Assigning to \<open>previous_hash\<close>
  a value that differs from the hash of record \<open>i - 1\<close> makes \<open>is_chain_valid\<close> return
  false also when the hash of record \<open>i\<close> is computed again.
\<close>

theorem tamper_detected_by_text:
  assumes "0 < i" and "i < length (chain_py self)"
    and "is_chain_valid_py sha256 self = Inr True"
  shows "(a \<noteq> Hash \<and> pydumps v = Some x \<and> pydumps (get_attr_py a (chain_py self ! i)) \<noteq> Some x
          \<and> hash_input_py (chain_py self ! i) = Some s
          \<and> hash_input_py (set_attr_py a v (chain_py self ! i)) = Some s'
          \<and> no_collision sha256 s' s
            \<longrightarrow> is_chain_valid_py sha256
                  (self\<lparr>chain_py := (chain_py self)[i := set_attr_py a v (chain_py self ! i)]\<rparr>)
                = Inr False)
       \<and> (a \<noteq> Hash \<and> get_attr_py a (chain_py self ! i) = embed d0 \<and> wf_json d0
          \<and> \<not> py_eq d d0
          \<and> hash_input_py (chain_py self ! i) = Some s
          \<and> hash_input_py (set_attr_py a (embed d) (chain_py self ! i)) = Some s'
          \<and> no_collision sha256 s' s
            \<longrightarrow> is_chain_valid_py sha256
                  (self\<lparr>chain_py := (chain_py self)
                     [i := set_attr_py a (embed d) (chain_py self ! i)]\<rparr>)
                = Inr False)
       \<and> (a \<noteq> Hash \<and> pydumps v = None
            \<longrightarrow> is_chain_valid_py sha256
                  (self\<lparr>chain_py := (chain_py self)[i := set_attr_py a v (chain_py self ! i)]\<rparr>)
                = Inl TypeError)
       \<and> (\<not> pyeq v (hash_py (chain_py self ! i))
            \<longrightarrow> is_chain_valid_py sha256
                  (self\<lparr>chain_py := (chain_py self)[i := set_attr_py Hash v (chain_py self ! i)]\<rparr>)
                = Inr False)
       \<and> (a \<noteq> Hash \<and> a \<noteq> Previous_hash
          \<and> pydumps v = pydumps (get_attr_py a (chain_py self ! i))
            \<longrightarrow> is_chain_valid_py sha256
                  (self\<lparr>chain_py := (chain_py self)[i := set_attr_py a v (chain_py self ! i)]\<rparr>)
                = Inr True)
       \<and> (\<not> pyeq v' (hash_py (chain_py self ! (i - 1)))
          \<and> rehash_py sha256 ((chain_py self ! i)\<lparr>previous_hash_py := v'\<rparr>) = Inr b'
            \<longrightarrow> is_chain_valid_py sha256 (self\<lparr>chain_py := (chain_py self)[i := b']\<rparr>)
                = Inr False)"
proof -
  let ?c = "chain_py self"
  let ?b = "?c ! i"
  have ok: "record_ok_py sha256 ?c j = Inr True" if "1 \<le> j" "j < length ?c" for j
    using assms(3) that by (simp add: is_chain_valid_py_def is_chain_valid_from_py_True)
  from ok [of i] assms(1,2) obtain h where h: "compute_hash_py sha256 ?b = Inr h"
    "hash_py ?b = PStr h" "pyeq (previous_hash_py ?b) (hash_py (?c ! (i - 1)))"
    by (auto simp: record_ok_py_def bind_result_def split: sum.splits)
  then obtain s0 where s0: "hash_input_py ?b = Some s0" "h = sha256 s0"
    by (auto simp: compute_hash_py_input split: option.splits)
  have A: "is_chain_valid_py sha256 (self\<lparr>chain_py := ?c[i := set_attr_py a v ?b]\<rparr>) = Inr False"
    if "a \<noteq> Hash" "pydumps v = Some x" "pydumps (get_attr_py a ?b) \<noteq> Some x"
      "hash_input_py ?b = Some s" "hash_input_py (set_attr_py a v ?b) = Some s'"
      "no_collision sha256 s' s" for v x
  proof -
    from hash_input_py_other_text [OF that(1-4)] that(5) have "s' \<noteq> s" by auto
    with that(6) have "sha256 s' \<noteq> sha256 s" by (auto simp: no_collision_def)
    moreover have "s = s0" using that(4) s0 by simp
    ultimately have "record_ok_py sha256 (?c[i := set_attr_py a v ?b]) i = Inr False"
      using assms(2) that(1,5) h s0
      by (simp add: record_ok_py_def compute_hash_py_input hash_py_set_attr_py)
    then show ?thesis by (rule is_chain_valid_py_update_fails [OF assms])
  qed
  have F: "is_chain_valid_py sha256 (self\<lparr>chain_py := ?c[i := set_attr_py a (embed d) ?b]\<rparr>)
             = Inr False"
    if "a \<noteq> Hash" "get_attr_py a ?b = embed d0" "wf_json d0" "\<not> py_eq d d0"
      "hash_input_py ?b = Some s" "hash_input_py (set_attr_py a (embed d) ?b) = Some s'"
      "no_collision sha256 s' s"
  proof -
    from that(3,4) have "dumps d \<noteq> dumps d0" using dumps_inj [of d0 d] by blast
    then have "pydumps (get_attr_py a ?b) \<noteq> Some (dumps d)"
      by (simp add: that(2) pydumps_embed)
    from A [OF that(1) pydumps_embed this that(5-7)] show ?thesis .
  qed
  have B: "is_chain_valid_py sha256 (self\<lparr>chain_py := ?c[i := set_attr_py a v ?b]\<rparr>)
             = Inl TypeError"
    if "a \<noteq> Hash" "pydumps v = None"
  proof -
    have "pydumps (get_attr_py a (set_attr_py a v ?b)) = None"
      using that(2) by (simp add: get_attr_py_set_attr_py)
    from hash_input_py_None [OF that(1) this]
    have "record_ok_py sha256 (?c[i := set_attr_py a v ?b]) i = Inl TypeError"
      using assms(2) by (simp add: record_ok_py_def compute_hash_py_input)
    then show ?thesis by (rule is_chain_valid_py_update_raises [OF assms])
  qed
  have C: "is_chain_valid_py sha256 (self\<lparr>chain_py := ?c[i := set_attr_py Hash v ?b]\<rparr>)
             = Inr False"
    if "\<not> pyeq v (hash_py ?b)"
  proof -
    have "record_ok_py sha256 (?c[i := set_attr_py Hash v ?b]) i = Inr False"
      using assms(2) that h
      by (simp add: record_ok_py_def compute_hash_py_set_hash)
    then show ?thesis by (rule is_chain_valid_py_update_fails [OF assms])
  qed
  have D: "is_chain_valid_py sha256 (self\<lparr>chain_py := ?c[i := set_attr_py a v ?b]\<rparr>)
             = Inr True"
    if "a \<noteq> Hash" "a \<noteq> Previous_hash" "pydumps v = pydumps (get_attr_py a ?b)"
    by (rule is_chain_valid_py_same_text [OF assms(2,3) that])
  have E: "is_chain_valid_py sha256 (self\<lparr>chain_py := ?c[i := b']\<rparr>) = Inr False"
    if "\<not> pyeq v' (hash_py (?c ! (i - 1)))"
      "rehash_py sha256 (?b\<lparr>previous_hash_py := v'\<rparr>) = Inr b'"
  proof -
    from that(2) obtain h' where h': "compute_hash_py sha256 (?b\<lparr>previous_hash_py := v'\<rparr>) = Inr h'"
      "b' = ?b\<lparr>previous_hash_py := v', hash_py := PStr h'\<rparr>"
      by (auto simp: rehash_py_def bind_result_def split: sum.splits)
    have "compute_hash_py sha256 b' = Inr h'"
      using h'(1) unfolding h'(2) by (simp add: compute_hash_py_set_hash)
    then have "record_ok_py sha256 (?c[i := b']) i = Inr False"
      using assms(1,2) that(1) by (simp add: record_ok_py_def h'(2))
    then show ?thesis by (rule is_chain_valid_py_update_fails [OF assms])
  qed
  from A [of v x] F B C D E show ?thesis by blast
qed

theorem tamper_detected_by_text_witness:
  "(0::nat) < 1 \<and> 1 < length (chain_py example_chain_py)
   \<and> is_chain_valid_py id example_chain_py = Inr True
   \<and> pydumps (PStr ''bob'') = Some (encode_basestring_ascii ''bob'')
   \<and> pydumps (get_attr_py Owner_name (chain_py example_chain_py ! 1))
        \<noteq> Some (encode_basestring_ascii ''bob'')
   \<and> hash_input_py (chain_py example_chain_py ! 1)
        = Some (the (hash_input_py (chain_py example_chain_py ! 1)))
   \<and> hash_input_py (set_attr_py Owner_name (PStr ''bob'') (chain_py example_chain_py ! 1))
        = Some (the (hash_input_py
                       (set_attr_py Owner_name (PStr ''bob'') (chain_py example_chain_py ! 1))))
   \<and> no_collision id
        (the (hash_input_py
                (set_attr_py Owner_name (PStr ''bob'') (chain_py example_chain_py ! 1))))
        (the (hash_input_py (chain_py example_chain_py ! 1)))
   \<and> is_chain_valid_py id
        (example_chain_py\<lparr>chain_py := (chain_py example_chain_py)
           [1 := set_attr_py Owner_name (PStr ''bob'') (chain_py example_chain_py ! 1)]\<rparr>)
       = Inr False
   \<and> get_attr_py Owner_name (chain_py example_chain_py ! 1) = embed (JStr ''alice'')
   \<and> wf_json (JStr ''alice'') \<and> \<not> py_eq (JStr ''bob'') (JStr ''alice'')
   \<and> is_chain_valid_py id
        (example_chain_py\<lparr>chain_py := (chain_py example_chain_py)
           [1 := set_attr_py Owner_name (embed (JStr ''bob'')) (chain_py example_chain_py ! 1)]\<rparr>)
       = Inr False
   \<and> pydumps (PBytes ''raw'') = None
   \<and> is_chain_valid_py id
        (example_chain_py\<lparr>chain_py := (chain_py example_chain_py)
           [1 := set_attr_py Owner_name (PBytes ''raw'') (chain_py example_chain_py ! 1)]\<rparr>)
       = Inl TypeError
   \<and> \<not> pyeq PNone (hash_py (chain_py example_chain_py ! 1))
   \<and> is_chain_valid_py id
        (example_chain_py\<lparr>chain_py := (chain_py example_chain_py)
           [1 := set_attr_py Hash PNone (chain_py example_chain_py ! 1)]\<rparr>)
       = Inr False
   \<and> pydumps example_tuple_metadata
        = pydumps (get_attr_py Metadata (chain_py example_chain_py ! 1))
   \<and> is_chain_valid_py id
        (example_chain_py\<lparr>chain_py := (chain_py example_chain_py)
           [1 := set_attr_py Metadata example_tuple_metadata (chain_py example_chain_py ! 1)]\<rparr>)
       = Inr True
   \<and> \<not> pyeq (PStr ''unrelated'') (hash_py (chain_py example_chain_py ! (1 - 1)))
   \<and> rehash_py id ((chain_py example_chain_py ! 1)\<lparr>previous_hash_py := PStr ''unrelated''\<rparr>)
        = Inr example_relinked
   \<and> is_chain_valid_py id
        (example_chain_py\<lparr>chain_py := (chain_py example_chain_py)[1 := example_relinked]\<rparr>)
       = Inr False"
proof -
  let ?b = "chain_py example_chain_py ! 1"
  obtain t0 t1 where c:
    "chain_py example_chain_py =
       [\<lparr> index_py = PInt 0, timestamp_py = PStr ''t0'', art_hash_py = PStr ''0'',
          owner_name_py = PStr ''Genesis'', owner_pubkey_py = PNone, signature_py = PNone,
          metadata_py = PDict [(KStr ''title'', PStr ''Genesis Block'')],
          previous_hash_py = PStr ''0'', nonce_py = PInt 0, hash_py = PStr (record_text t0) \<rparr>,
        \<lparr> index_py = PInt 1, timestamp_py = PStr ''t1'', art_hash_py = PStr ''abc123'',
          owner_name_py = PStr ''alice'', owner_pubkey_py = PNone, signature_py = PNone,
          metadata_py = example_list_metadata, previous_hash_py = PStr (record_text t0),
          nonce_py = PInt 0, hash_py = PStr (record_text t1) \<rparr>]"
    and hi: "hash_input_py ?b = Some (record_text t1)"
    by (rule example_chain_py_built)
  have h1: "(0::nat) < 1" by simp
  have h2: "1 < length (chain_py example_chain_py)" by (simp add: c)
  have h3: "is_chain_valid_py id example_chain_py = Inr True"
    unfolding example_chain_py_def
    by (rule minted_chain_py_valid [OF example_metadata_texts(1)])
  note t = tamper_detected_by_text [OF h1 h2 h3]
  have owner: "owner_name_py ?b = PStr ''alice''" by (simp add: c)
  have a1: "pydumps (PStr ''bob'') = Some (encode_basestring_ascii ''bob'')" by simp
  have a2: "pydumps (get_attr_py Owner_name ?b) \<noteq> Some (encode_basestring_ascii ''bob'')"
    using owner by (simp add: encode_basestring_ascii_def escape_char_def)
  have a3: "hash_input_py ?b = Some (the (hash_input_py ?b))" using hi by simp
  have "hash_input_py (set_attr_py Owner_name (PStr ''bob'') ?b) \<noteq> None"
    by (rule hash_input_py_set_attr_py_Some) (use hi in simp_all)
  then have a4: "hash_input_py (set_attr_py Owner_name (PStr ''bob'') ?b)
      = Some (the (hash_input_py (set_attr_py Owner_name (PStr ''bob'') ?b)))"
    by simp
  have a5: "no_collision id
        (the (hash_input_py (set_attr_py Owner_name (PStr ''bob'') ?b)))
        (the (hash_input_py ?b))"
    by (simp add: no_collision_def)
  have A: "is_chain_valid_py id
        (example_chain_py\<lparr>chain_py := (chain_py example_chain_py)
           [1 := set_attr_py Owner_name (PStr ''bob'') ?b]\<rparr>) = Inr False"
    using t [where a = Owner_name and v = "PStr ''bob''", THEN conjunct1, rule_format,
        of "encode_basestring_ascii ''bob''" "the (hash_input_py ?b)"
           "the (hash_input_py (set_attr_py Owner_name (PStr ''bob'') ?b))"]
      a1 a2 a3 a4 a5 by simp
  have f1: "get_attr_py Owner_name ?b = embed (JStr ''alice'')" using owner by simp
  have f2: "wf_json (JStr ''alice'')" "\<not> py_eq (JStr ''bob'') (JStr ''alice'')" by simp_all
  have a4': "hash_input_py (set_attr_py Owner_name (embed (JStr ''bob'')) ?b)
      = Some (the (hash_input_py (set_attr_py Owner_name (PStr ''bob'') ?b)))"
    using a4 by simp
  have F: "is_chain_valid_py id
        (example_chain_py\<lparr>chain_py := (chain_py example_chain_py)
           [1 := set_attr_py Owner_name (embed (JStr ''bob'')) ?b]\<rparr>) = Inr False"
    by (rule t [where a = Owner_name, THEN conjunct2, THEN conjunct1, rule_format,
          of "JStr ''alice''" "JStr ''bob''" "the (hash_input_py ?b)"
             "the (hash_input_py (set_attr_py Owner_name (PStr ''bob'') ?b))"])
       (intro conjI f1 f2 a3 a4' a5, simp)
  have b1: "pydumps (PBytes ''raw'') = None" by simp
  have B: "is_chain_valid_py id
        (example_chain_py\<lparr>chain_py := (chain_py example_chain_py)
           [1 := set_attr_py Owner_name (PBytes ''raw'') ?b]\<rparr>) = Inl TypeError"
    by (rule t [where a = Owner_name, THEN conjunct2, THEN conjunct2, THEN conjunct1,
          rule_format]) (simp add: b1)
  have c1: "\<not> pyeq PNone (hash_py ?b)" by (simp add: c)
  have C: "is_chain_valid_py id
        (example_chain_py\<lparr>chain_py := (chain_py example_chain_py)
           [1 := set_attr_py Hash PNone ?b]\<rparr>) = Inr False"
    by (rule t [THEN conjunct2, THEN conjunct2, THEN conjunct2, THEN conjunct1, rule_format])
       (rule c1)
  have d1: "pydumps example_tuple_metadata = pydumps (get_attr_py Metadata ?b)"
    by (simp add: c example_metadata_texts(2))
  have D: "is_chain_valid_py id
        (example_chain_py\<lparr>chain_py := (chain_py example_chain_py)
           [1 := set_attr_py Metadata example_tuple_metadata ?b]\<rparr>) = Inr True"
    by (rule t [where a = Metadata, THEN conjunct2, THEN conjunct2, THEN conjunct2,
          THEN conjunct2, THEN conjunct1, rule_format])
       (simp add: d1)
  have e1: "\<not> pyeq (PStr ''unrelated'') (hash_py (chain_py example_chain_py ! (1 - 1)))"
    by (simp add: c) (subst record_text_Cons, simp)
  have "hash_input_py (set_attr_py Previous_hash (PStr ''unrelated'') ?b) \<noteq> None"
    by (rule hash_input_py_set_attr_py_Some) (use hi in simp_all)
  then obtain s where "hash_input_py (?b\<lparr>previous_hash_py := PStr ''unrelated''\<rparr>) = Some s"
    by auto
  then have "rehash_py id (?b\<lparr>previous_hash_py := PStr ''unrelated''\<rparr>)
      = Inr (?b\<lparr>previous_hash_py := PStr ''unrelated'', hash_py := PStr s\<rparr>)"
    by (simp add: rehash_py_def compute_hash_py_input)
  then have e2: "rehash_py id (?b\<lparr>previous_hash_py := PStr ''unrelated''\<rparr>)
      = Inr example_relinked"
    by (simp add: example_relinked_def)
  have E: "is_chain_valid_py id
        (example_chain_py\<lparr>chain_py := (chain_py example_chain_py)[1 := example_relinked]\<rparr>)
       = Inr False"
    by (rule t [where v' = "PStr ''unrelated''", THEN conjunct2, THEN conjunct2,
          THEN conjunct2, THEN conjunct2, THEN conjunct2, rule_format])
       (intro conjI e1 e2)
  from h1 h2 h3 a1 a2 a3 a4 a5 A f1 f2 F b1 B c1 C d1 D e1 e2 E show ?thesis
    by (intro conjI)
qed

text \<open>
  The claim as it is written fails. In the chain of the example the metadata of record 1
  holds the list of tags; after the metadata is assigned the same dictionary with the
  tuple of the same tags, a value that is \<open>!=\<close> the old one, \<open>is_chain_valid\<close> still
  returns true.
\<close>

theorem tamper_undetected_counterexample:
  "length (chain_py example_chain_py) = 2
   \<and> is_chain_valid_py id example_chain_py = Inr True
   \<and> metadata_py (chain_py example_chain_py ! 1) = example_list_metadata
   \<and> \<not> pyeq example_tuple_metadata example_list_metadata
   \<and> is_chain_valid_py id
         (example_chain_py\<lparr>chain_py := (chain_py example_chain_py)
            [1 := set_attr_py Metadata example_tuple_metadata (chain_py example_chain_py ! 1)]\<rparr>)
       = Inr True"
proof -
  obtain t0 t1 where c:
    "chain_py example_chain_py =
       [\<lparr> index_py = PInt 0, timestamp_py = PStr ''t0'', art_hash_py = PStr ''0'',
          owner_name_py = PStr ''Genesis'', owner_pubkey_py = PNone, signature_py = PNone,
          metadata_py = PDict [(KStr ''title'', PStr ''Genesis Block'')],
          previous_hash_py = PStr ''0'', nonce_py = PInt 0, hash_py = PStr (record_text t0) \<rparr>,
        \<lparr> index_py = PInt 1, timestamp_py = PStr ''t1'', art_hash_py = PStr ''abc123'',
          owner_name_py = PStr ''alice'', owner_pubkey_py = PNone, signature_py = PNone,
          metadata_py = example_list_metadata, previous_hash_py = PStr (record_text t0),
          nonce_py = PInt 0, hash_py = PStr (record_text t1) \<rparr>]"
    unfolding example_chain_py_def
    by (rule minted_chain_py_built [OF example_metadata_texts(1)])
  have l: "length (chain_py example_chain_py) = 2" and m:
    "metadata_py (chain_py example_chain_py ! 1) = example_list_metadata"
    by (simp_all add: c)
  have v: "is_chain_valid_py id example_chain_py = Inr True"
    unfolding example_chain_py_def
    by (rule minted_chain_py_valid [OF example_metadata_texts(1)])
  have n: "\<not> pyeq example_tuple_metadata example_list_metadata"
    by (simp add: example_tuple_metadata_def example_list_metadata_def)
  have "is_chain_valid_py id
         (example_chain_py\<lparr>chain_py := (chain_py example_chain_py)
            [1 := set_attr_py Metadata example_tuple_metadata (chain_py example_chain_py ! 1)]\<rparr>)
       = Inr True"
    by (rule is_chain_valid_py_same_text [OF _ v])
       (use l m in \<open>simp_all add: example_metadata_texts(2)\<close>)
  with l v m n show ?thesis by simp
qed

section \<open>Round trip through the storage file\<close>







end
